theory Spec2Isabelle
  imports Complex_Main "HOL-Library.List_Lexorder" "HOL-Library.Char_ord" "HOL-Library.Multiset"
begin

section \<open>Date utilities (src/utils/dates.py)\<close>

text \<open>
  Months are Python integers in the form YYYYMM. Python's \<open>//\<close> and \<open>%\<close> round towards
  minus infinity, as \<open>div\<close> and \<open>mod\<close> on \<^typ>\<open>int\<close> do.

  The inner loop of \<open>get_ttm_months\<close>:
  \<^verbatim>\<open>while m <= 0: m += 12; y -= 1\<close>
\<close>

function wrap_month :: "int \<Rightarrow> int \<Rightarrow> int \<times> int" where
  "wrap_month m y = (if m \<le> 0 then wrap_month (m + 12) (y - 1) else (m, y))"
  by pat_completeness auto
termination
  by (relation "measure (\<lambda>(m, y). nat (1 - m))") auto

declare wrap_month.simps [simp del]

text \<open>The body of the \<open>for i in range(num_months)\<close> loop: the value appended for index \<open>i\<close>.\<close>

definition ttm_entry :: "int \<Rightarrow> int \<Rightarrow> nat \<Rightarrow> int" where
  "ttm_entry year month_num i =
     (case wrap_month (month_num - int i) year of (m, y) \<Rightarrow> y * 100 + m)"

text \<open>\<open>range(n)\<close> is empty for \<open>n \<le> 0\<close>; \<open>sorted\<close> on integers is \<^const>\<open>sort\<close>.\<close>

definition get_ttm_months :: "int \<Rightarrow> int \<Rightarrow> int list" where
  "get_ttm_months month num_months =
     (let year = month div 100;
          month_num = month mod 100
      in sort (map (ttm_entry year month_num) [0..<nat num_months]))"

text \<open>
  The walk the specification describes, written from its words: one step back from a
  month, decrementing the year when the month number underflows below 1.
\<close>

definition spec_prev_month :: "int \<Rightarrow> int" where
  "spec_prev_month ym =
     (let y = ym div 100; m = ym mod 100 - 1
      in if m < 1 then (y - 1) * 100 + 12 else y * 100 + m)"

definition spec_window :: "int \<Rightarrow> int \<Rightarrow> int list" where
  "spec_window target window_months =
     map (\<lambda>i. (spec_prev_month ^^ i) target) [0..<nat window_months]"


subsection \<open>Month arithmetic\<close>

text \<open>A month YYYYMM with month number 1..12 corresponds to the index \<open>12 * YYYY + MM - 1\<close>.\<close>


definition month_of_index :: "int \<Rightarrow> int" where
  "month_of_index k = (k div 12) * 100 + (k mod 12 + 1)"

lemma shift12_mod: "(11 + m) mod 12 = (m - 1) mod (12::int)"
proof -
  have "11 + m = (m - 1) + 1 * 12" by simp
  then show ?thesis by (simp only: mod_mult_self1)
qed

lemma shift12_div: "(11 + m) div 12 = (m - 1) div (12::int) + 1"
proof -
  have "11 + m = (m - 1) + 1 * 12" by simp
  then have "(11 + m) div 12 = ((m - 1) + 1 * 12) div 12" by simp
  also have "\<dots> = 1 + (m - 1) div 12" by (rule div_mult_self1) simp
  finally show ?thesis by simp
qed

lemma wrap_month_closed:
  "m \<le> 12 \<Longrightarrow> wrap_month m y = ((m - 1) mod 12 + 1, y + (m - 1) div 12)"
proof (induction m y rule: wrap_month.induct)
  case (1 m y)
  show ?case
  proof (cases "m \<le> 0")
    case True
    from True 1 have "wrap_month (m + 12) (y - 1) = ((m + 12 - 1) mod 12 + 1, y - 1 + (m + 12 - 1) div 12)"
      by simp
    then show ?thesis using True by (subst wrap_month.simps) (simp add: shift12_mod shift12_div)
  next
    case False
    with 1(2) have "(m - 1) mod 12 = m - 1" "(m - 1) div 12 = 0" by simp_all
    then show ?thesis using False by (subst wrap_month.simps) simp
  qed
qed

lemma div12_shift: "(y * 12 + x) div 12 = y + x div (12::int)"
  by simp

lemma mod12_shift: "(y * 12 + x) mod 12 = x mod (12::int)"
  by simp

lemma ttm_entry_index:
  assumes "1 \<le> mn" "mn \<le> 12"
  shows "ttm_entry y mn i = month_of_index (y * 12 + (mn - 1 - int i))"
proof -
  have le: "mn - int i \<le> 12" using assms by simp
  have e: "mn - int i - 1 = mn - 1 - int i" by simp
  show ?thesis
    unfolding ttm_entry_def month_of_index_def wrap_month_closed [OF le] div12_shift mod12_shift e
    by simp
qed

lemma month_of_index_div: "month_of_index k div 100 = k div 12"
proof -
  have "0 \<le> k mod 12 + 1" "k mod 12 + 1 < 100"
    using pos_mod_bound [of 12 k] pos_mod_sign [of 12 k] by simp_all
  then have "(k mod 12 + 1) div 100 = 0" by simp
  then show ?thesis unfolding month_of_index_def by simp
qed

lemma month_of_index_mod: "month_of_index k mod 100 = k mod 12 + 1"
proof -
  have "0 \<le> k mod 12 + 1" "k mod 12 + 1 < 100"
    using pos_mod_bound [of 12 k] pos_mod_sign [of 12 k] by simp_all
  then have "(k mod 12 + 1) mod 100 = k mod 12 + 1" by simp
  then show ?thesis unfolding month_of_index_def by simp
qed


lemma spec_prev_month_index: "spec_prev_month (month_of_index k) = month_of_index (k - 1)"
proof (cases "k mod 12 = 0")
  case True
  then obtain q where k: "k = 12 * q" by (auto simp: mod_eq_0_iff_dvd elim: dvdE)
  have k1: "k - 1 = (q - 1) * 12 + 11" using k by (simp add: algebra_simps)
  have m: "(k - 1) mod 12 = 11" unfolding k1 mod12_shift by simp
  have d: "(k - 1) div 12 = q - 1" unfolding k1 div12_shift by simp
  have "k div 12 = q" using k by simp
  then show ?thesis
    using True m d
    by (simp add: spec_prev_month_def month_of_index_div month_of_index_mod Let_def)
       (simp add: month_of_index_def)
next
  case False
  have pos: "0 \<le> k mod 12" by simp
  with False have ge: "1 \<le> k mod 12" by linarith
  have lt: "k mod 12 < 12" by simp
  have "k - 1 = (k div 12) * 12 + (k mod 12 - 1)" by (simp add: algebra_simps)
  moreover have "(k mod 12 - 1) mod 12 = k mod 12 - 1" "(k mod 12 - 1) div 12 = 0"
    using ge lt by simp_all
  ultimately have m: "(k - 1) mod 12 = k mod 12 - 1" and d: "(k - 1) div 12 = k div 12"
    by (metis mod12_shift, metis div12_shift add.right_neutral)
  show ?thesis
    using ge m d
    by (simp add: spec_prev_month_def month_of_index_div month_of_index_mod Let_def)
       (simp add: month_of_index_def)
qed

lemma spec_prev_month_funpow:
  "(spec_prev_month ^^ i) (month_of_index k) = month_of_index (k - int i)"
  by (induction i) (simp_all add: spec_prev_month_index algebra_simps)

lemma month_index_split:
  assumes "1 \<le> month mod 100" "month mod 100 \<le> 12"
  shows "month_of_index ((month div 100) * 12 + (month mod 100 - 1)) = month"
proof -
  have "(month mod 100 - 1) div 12 = 0" "(month mod 100 - 1) mod 12 = month mod 100 - 1"
    using assms by simp_all
  then show ?thesis
    unfolding month_of_index_def div12_shift mod12_shift by simp
qed

lemma ttm_entry_walk:
  assumes "1 \<le> month mod 100" "month mod 100 \<le> 12"
  shows "ttm_entry (month div 100) (month mod 100) i = (spec_prev_month ^^ i) month"
proof -
  have "(spec_prev_month ^^ i) month =
      (spec_prev_month ^^ i) (month_of_index ((month div 100) * 12 + (month mod 100 - 1)))"
    by (simp only: month_index_split [OF assms])
  also have "\<dots> = month_of_index ((month div 100) * 12 + (month mod 100 - 1) - int i)"
    by (rule spec_prev_month_funpow)
  finally show ?thesis
    by (simp add: ttm_entry_index [OF assms] algebra_simps)
qed

text \<open>
  Claim C3 (amended). For a target month whose month number is 1..12, the window of
  \<open>get_ttm_months\<close> is the sorted list of the months reached by walking backward
  month by month \<open>window_months - 1\<close> times from the target, decrementing the year
  when the month number underflows below 1. With a window of 3 months the window ending
  at 202403 is [202401, 202402, 202403], and the window ending at 202401 is
  [202311, 202312, 202401] (the year rolls over to 2023, not to 2012).
\<close>

theorem get_ttm_months_walk:
  "1 \<le> month mod 100 \<Longrightarrow> month mod 100 \<le> 12 \<Longrightarrow>
     get_ttm_months month n = sort (spec_window month n)
     \<and> get_ttm_months 202403 3 = [202401, 202402, 202403]
     \<and> get_ttm_months 202401 3 = [202311, 202312, 202401]"
  apply (intro conjI)
  subgoal
  proof -
    assume a: "1 \<le> month mod 100" "month mod 100 \<le> 12"
    have "ttm_entry (month div 100) (month mod 100) = (\<lambda>i. (spec_prev_month ^^ i) month)"
      by (rule ext) (rule ttm_entry_walk [OF a])
    then show ?thesis by (simp add: get_ttm_months_def spec_window_def Let_def)
  qed
  subgoal by code_simp
  subgoal by code_simp
  done

theorem get_ttm_months_walk_witness:
  "1 \<le> (202401::int) mod 100 \<and> (202401::int) mod 100 \<le> 12 \<and>
   get_ttm_months 202401 3 = sort (spec_window 202401 3)"
  using get_ttm_months_walk [of 202401 3] by simp

text \<open>
  The window ending at 202401 is not the month set {201211, 201212, 202401} of the
  specification's example.
\<close>

theorem get_ttm_months_rollover_counterexample:
  "set (get_ttm_months 202401 3) \<noteq> {201211, 201212, 202401}"
proof -
  have "get_ttm_months 202401 3 = [202311, 202312, 202401]" by code_simp
  then have "(201211::int) \<notin> set (get_ttm_months 202401 3)" by simp
  moreover have "(201211::int) \<in> {201211, 201212, 202401}" by simp
  ultimately show ?thesis by metis
qed

section \<open>Errors and Python helpers\<close>

text \<open>
  The exceptions the analytics code can raise. A \<open>KeyError\<close> carries the column names
  pandas reports as missing.
\<close>

datatype error = KeyError "string list" | IndexError | ValueError | TypeError

text \<open>Sequencing of computations that may raise: the first exception wins.\<close>

definition then_do :: "error + 'a \<Rightarrow> ('a \<Rightarrow> error + 'b) \<Rightarrow> error + 'b" where
  "then_do r f = (case r of Inl e \<Rightarrow> Inl e | Inr v \<Rightarrow> f v)"

text \<open>A \<open>for\<close> loop that appends one result per element and stops at the first exception.\<close>

primrec map_err :: "('a \<Rightarrow> error + 'b) \<Rightarrow> 'a list \<Rightarrow> error + 'b list" where
  "map_err f [] = Inr []"
| "map_err f (x # xs) = then_do (f x) (\<lambda>y. then_do (map_err f xs) (\<lambda>ys. Inr (y # ys)))"

lemma then_do_Inr_iff [simp]:
  "then_do r f = Inr y \<longleftrightarrow> (\<exists>v. r = Inr v \<and> f v = Inr y)"
  by (cases r) (simp_all add: then_do_def)

lemma then_do_Inr [simp]: "then_do (Inr v) f = f v"
  by (simp add: then_do_def)

lemma then_do_Inl [simp]: "then_do (Inl e) f = Inl e"
  by (simp add: then_do_def)

lemma map_err_Inr_length: "map_err f xs = Inr ys \<Longrightarrow> length ys = length xs"
  by (induction xs arbitrary: ys) auto

lemma map_err_Inr_set:
  "map_err f xs = Inr ys \<Longrightarrow> y \<in> set ys \<Longrightarrow> \<exists>x \<in> set xs. f x = Inr y"
  by (induction xs arbitrary: ys) auto

lemma map_err_Inr_map:
  "map_err f xs = Inr ys \<Longrightarrow> (\<And>x y. f x = Inr y \<Longrightarrow> g y = x) \<Longrightarrow> map g ys = xs"
  by (induction xs arbitrary: ys) auto

lemma map_err_total:
  "(\<And>x. x \<in> set xs \<Longrightarrow> \<exists>y. f x = Inr y) \<Longrightarrow> \<exists>ys. map_err f xs = Inr ys"
proof (induction xs)
  case Nil
  show ?case by simp
next
  case (Cons x xs)
  then obtain y ys where "f x = Inr y" "map_err f xs = Inr ys"
    by (metis list.set_intros)
  then show ?case by simp
qed

subsection \<open>The builtin \<open>int(str)\<close>\<close>

text \<open>
  \<open>int(s)\<close> in base 10: surrounding whitespace is stripped, one sign is allowed, and the
  digits may be grouped by single underscores; anything else raises \<open>ValueError\<close>.
  Strings are modelled as lists of 8-bit characters, so the model covers ASCII input;
  the interpreter's configurable limit on the number of digits is left out.
\<close>

definition py_isspace :: "char \<Rightarrow> bool" where
  "py_isspace c = (c \<in> set [CHR '' '', CHR 0x09, CHR 0x0A, CHR 0x0B, CHR 0x0C, CHR 0x0D,
                            CHR 0x1C, CHR 0x1D, CHR 0x1E, CHR 0x1F])"

definition py_isdigit :: "char \<Rightarrow> bool" where
  "py_isdigit c = (c \<in> set ''0123456789'')"

definition digit_value :: "char \<Rightarrow> int" where
  "digit_value c = int (of_char c) - 48"

fun digits_acc :: "int \<Rightarrow> string \<Rightarrow> int option" where
  "digits_acc acc [] = Some acc"
| "digits_acc acc [c] = (if py_isdigit c then Some (acc * 10 + digit_value c) else None)"
| "digits_acc acc (c # d # ds) =
     (if py_isdigit c then digits_acc (acc * 10 + digit_value c) (d # ds)
      else if c = CHR ''_'' \<and> py_isdigit d then digits_acc (acc * 10 + digit_value d) ds
      else None)"

definition py_strip :: "string \<Rightarrow> string" where
  "py_strip s = rev (dropWhile py_isspace (rev (dropWhile py_isspace s)))"

definition py_int :: "string \<Rightarrow> error + int" where
  "py_int s =
     (let t = py_strip s;
          (sign, body) = (case t of
                            c # r \<Rightarrow> if c = CHR ''+'' then (1, r)
                                     else if c = CHR ''-'' then (- 1, r) else (1, t)
                          | [] \<Rightarrow> (1, t))
      in case body of
           [] \<Rightarrow> Inl ValueError
         | c # cs \<Rightarrow>
             if py_isdigit c
             then (case digits_acc (digit_value c) cs of
                     None \<Rightarrow> Inl ValueError
                   | Some n \<Rightarrow> Inr (sign * n))
             else Inl ValueError)"

text \<open>The ordinal of a segment code: \<open>int(code[3:])\<close>.\<close>

definition seg_num :: "string \<Rightarrow> error + int" where
  "seg_num code = py_int (drop 3 code)"

section \<open>The Snapshot\<close>

text \<open>
  One row of the snapshot frame: the entity, its two nullable segment codes, its status
  and the numeric cell of every metric column. IEEE doubles are modelled by reals, so
  rounding, NaN and infinities are outside the model.
\<close>

record snapshot_row =
  entity :: string
  base_segment :: "string option"
  current_segment :: "string option"
  status :: string
  metric_value :: "string \<Rightarrow> real"

text \<open>
  The frame: the names of its metric columns (all columns but the four key columns)
  and its rows in index order.
\<close>

record snapshot =
  metric_columns :: "string list"
  rows :: "snapshot_row list"

definition key_columns :: "string list" where
  "key_columns = [''entity'', ''base_segment'', ''current_segment'', ''status'']"

definition columns :: "snapshot \<Rightarrow> string list" where
  "columns snap = key_columns @ metric_columns snap"

text \<open>\<open>sorted(frame[col].dropna().unique())\<close> for the two segment columns.\<close>

definition base_segments :: "snapshot \<Rightarrow> string list" where
  "base_segments snap = sort (remdups (List.map_filter base_segment (rows snap)))"

definition curr_segments :: "snapshot \<Rightarrow> string list" where
  "curr_segments snap = sort (remdups (List.map_filter current_segment (rows snap)))"

section \<open>Metric calculation (src/analysis/metrics.py)\<close>

text \<open>
  \<open>calculate_metric(df, period, metric)\<close>, where \<open>df\<close> is a selection of the rows of
  a snapshot with columns \<open>cols\<close>. When the selector addresses a key column (the
  selector \<open>segment\<close> addresses \<open>base_segment\<close> and \<open>current_segment\<close>), pandas adds
  up segment codes instead of numbers and every caller then fails with a \<open>TypeError\<close> in
  its first arithmetic on the result; the model raises that \<open>TypeError\<close> at the read.
\<close>

definition calculate_metric :: "string list \<Rightarrow> snapshot_row list \<Rightarrow> string \<Rightarrow> string \<Rightarrow> error + real" where
  "calculate_metric cols df period metric =
     (if length df = 0 then Inr 0
      else if metric = ''count'' then Inr (real (length df))
      else let col_name = period @ ''_'' @ metric
           in if col_name \<in> set cols
              then (if col_name \<in> set key_columns then Inl TypeError
                    else Inr (sum_list (map (\<lambda>r. metric_value r col_name) df)))
              else Inr 0)"

section \<open>Summary view (src/analysis/summary.py)\<close>

record summary_row =
  Segment :: string
  Base :: real
  Current :: real
  Retained :: real
  New_System :: real
  Added_Other_Seg :: real
  Lost_Other_Seg :: real
  Lost_System :: real
  Net_Change :: real

text \<open>
  \<open>sorted(base_segments | curr_segments)\<close>: the union of the segment codes of both
  columns, without nulls, in ascending order.
\<close>

definition all_segments :: "snapshot \<Rightarrow> string list" where
  "all_segments snap =
     sort (remdups (List.map_filter base_segment (rows snap)
                    @ List.map_filter current_segment (rows snap)))"

text \<open>
  The body of the loop over segments. A comparison of a null code with a segment is
  false for \<open>==\<close> and true for \<open>!=\<close>, as in pandas.
\<close>

definition summary_row_for :: "snapshot \<Rightarrow> string \<Rightarrow> string \<Rightarrow> error + summary_row" where
  "summary_row_for snap metric segment =
     (let cols = columns snap; rs = rows snap;
          base_entities = filter (\<lambda>r. base_segment r = Some segment) rs;
          curr_entities = filter (\<lambda>r. current_segment r = Some segment) rs;
          retained = filter (\<lambda>r. base_segment r = Some segment \<and> current_segment r = Some segment) rs;
          new_system = filter (\<lambda>r. current_segment r = Some segment \<and> base_segment r = None) rs;
          added = filter (\<lambda>r. current_segment r = Some segment \<and> base_segment r \<noteq> None
                              \<and> base_segment r \<noteq> Some segment) rs;
          lost_other = filter (\<lambda>r. base_segment r = Some segment \<and> current_segment r \<noteq> None
                              \<and> current_segment r \<noteq> Some segment) rs;
          lost_system = filter (\<lambda>r. base_segment r = Some segment \<and> current_segment r = None) rs
      in then_do (calculate_metric cols base_entities ''base'' metric) (\<lambda>b.
         then_do (calculate_metric cols curr_entities ''current'' metric) (\<lambda>c.
         then_do (calculate_metric cols retained ''current'' metric) (\<lambda>ret.
         then_do (calculate_metric cols new_system ''current'' metric) (\<lambda>new.
         then_do (calculate_metric cols added ''current'' metric) (\<lambda>add.
         then_do (calculate_metric cols lost_other ''base'' metric) (\<lambda>lo.
         then_do (calculate_metric cols lost_system ''base'' metric) (\<lambda>ls.
           Inr \<lparr>Segment = segment, Base = b, Current = c, Retained = ret, New_System = new,
                Added_Other_Seg = add, Lost_Other_Seg = lo, Lost_System = ls,
                Net_Change = c - b\<rparr>))))))))"

text \<open>The appended row: every numeric column summed down the per-segment rows.\<close>

definition totals :: "summary_row list \<Rightarrow> summary_row" where
  "totals df =
     \<lparr>Segment = ''TOTAL'',
      Base = sum_list (map Base df),
      Current = sum_list (map Current df),
      Retained = sum_list (map Retained df),
      New_System = sum_list (map New_System df),
      Added_Other_Seg = sum_list (map Added_Other_Seg df),
      Lost_Other_Seg = sum_list (map Lost_Other_Seg df),
      Lost_System = sum_list (map Lost_System df),
      Net_Change = sum_list (map Net_Change df)\<rparr>"

text \<open>
  With no segment at all the frame built from the empty row list has no columns, the
  totals row has only its label, and the final report of the total of column
  \<open>Base\<close> raises \<open>KeyError\<close>.
\<close>

definition generate_summary_view :: "snapshot \<Rightarrow> string \<Rightarrow> error + summary_row list" where
  "generate_summary_view snap metric =
     then_do (map_err (summary_row_for snap metric) (all_segments snap)) (\<lambda>df.
       if df = [] then Inl (KeyError [''Base''])
       else Inr (df @ [totals df]))"

subsection \<open>Properties of the summary view\<close>

lemma real_length_sum_list: "real (length xs) = sum_list (map (\<lambda>_. 1) xs)"
  by (induction xs) simp_all

text \<open>What a successful \<open>calculate_metric\<close> returns: a sum of one term per selected row.\<close>

definition metric_term :: "string list \<Rightarrow> string \<Rightarrow> string \<Rightarrow> snapshot_row \<Rightarrow> real" where
  "metric_term cols period metric r =
     (if metric = ''count'' then 1
      else if period @ ''_'' @ metric \<in> set cols then metric_value r (period @ ''_'' @ metric)
      else 0)"

lemma calculate_metric_Inr:
  "calculate_metric cols df period metric = Inr v \<Longrightarrow>
     v = sum_list (map (metric_term cols period metric) df)"
proof -
  assume a: "calculate_metric cols df period metric = Inr v"
  have t: "metric_term cols period metric =
      (\<lambda>r. if metric = ''count'' then 1
        else if period @ ''_'' @ metric \<in> set cols then metric_value r (period @ ''_'' @ metric)
        else 0)"
    by (rule ext) (simp add: metric_term_def)
  show ?thesis
  proof (cases "df = []")
    case True
    with a show ?thesis by (simp add: calculate_metric_def)
  next
    case False
    with a show ?thesis
      unfolding t
      by (auto simp: calculate_metric_def Let_def real_length_sum_list split: if_splits)
  qed
qed

lemma calculate_metric_count: "calculate_metric cols df period ''count'' = Inr (real (length df))"
  by (simp add: calculate_metric_def)

lemma calculate_metric_total:
  "metric \<noteq> ''segment'' \<Longrightarrow> period \<in> {''base'', ''current''} \<Longrightarrow>
     \<exists>v. calculate_metric cols df period metric = Inr v"
  by (auto simp: calculate_metric_def Let_def key_columns_def)

lemma current_partition:
  "sum_list (map f (filter (\<lambda>r. current_segment r = Some seg) rs)) =
     sum_list (map f (filter (\<lambda>r. base_segment r = Some seg \<and> current_segment r = Some seg) rs))
   + sum_list (map f (filter (\<lambda>r. current_segment r = Some seg \<and> base_segment r = None) rs))
   + sum_list (map f (filter (\<lambda>r. current_segment r = Some seg \<and> base_segment r \<noteq> None
                                  \<and> base_segment r \<noteq> Some seg) rs))"
  for f :: "snapshot_row \<Rightarrow> real"
  by (induction rs) auto

lemma summary_row_for_Segment:
  "summary_row_for snap metric seg = Inr row \<Longrightarrow> Segment row = seg"
  by (auto simp: summary_row_for_def Let_def)

lemma summary_row_for_Current:
  assumes "summary_row_for snap metric seg = Inr row"
  shows "Current row = Retained row + New_System row + Added_Other_Seg row"
proof -
  let ?t = "metric_term (columns snap) ''current'' metric"
  from assms obtain c ret new add where
    c: "calculate_metric (columns snap) (filter (\<lambda>r. current_segment r = Some seg) (rows snap)) ''current'' metric = Inr c"
    and ret: "calculate_metric (columns snap) (filter (\<lambda>r. base_segment r = Some seg \<and> current_segment r = Some seg) (rows snap)) ''current'' metric = Inr ret"
    and new: "calculate_metric (columns snap) (filter (\<lambda>r. current_segment r = Some seg \<and> base_segment r = None) (rows snap)) ''current'' metric = Inr new"
    and add: "calculate_metric (columns snap) (filter (\<lambda>r. current_segment r = Some seg \<and> base_segment r \<noteq> None \<and> base_segment r \<noteq> Some seg) (rows snap)) ''current'' metric = Inr add"
    and row: "Current row = c" "Retained row = ret" "New_System row = new" "Added_Other_Seg row = add"
    by (auto simp: summary_row_for_def Let_def)
  show ?thesis
    unfolding row
    unfolding calculate_metric_Inr [OF c] calculate_metric_Inr [OF ret]
      calculate_metric_Inr [OF new] calculate_metric_Inr [OF add]
    by (rule current_partition)
qed

lemma summary_row_for_total:
  "metric \<noteq> ''segment'' \<Longrightarrow> \<exists>row. summary_row_for snap metric seg = Inr row"
proof -
  assume m: "metric \<noteq> ''segment''"
  have t: "\<And>df period. period \<in> {''base'', ''current''} \<Longrightarrow>
      \<exists>v. calculate_metric (columns snap) df period metric = Inr v"
    by (rule calculate_metric_total [OF m])
  have b: "\<And>df. \<exists>v. calculate_metric (columns snap) df ''base'' metric = Inr v"
    by (rule t) simp
  have c: "\<And>df. \<exists>v. calculate_metric (columns snap) df ''current'' metric = Inr v"
    by (rule t) simp
  obtain v1 where v1: "calculate_metric (columns snap) (filter (\<lambda>r. base_segment r = Some seg) (rows snap)) ''base'' metric = Inr v1"
    using b by blast
  obtain v2 where v2: "calculate_metric (columns snap) (filter (\<lambda>r. current_segment r = Some seg) (rows snap)) ''current'' metric = Inr v2"
    using c by blast
  obtain v3 where v3: "calculate_metric (columns snap) (filter (\<lambda>r. base_segment r = Some seg \<and> current_segment r = Some seg) (rows snap)) ''current'' metric = Inr v3"
    using c by blast
  obtain v4 where v4: "calculate_metric (columns snap) (filter (\<lambda>r. current_segment r = Some seg \<and> base_segment r = None) (rows snap)) ''current'' metric = Inr v4"
    using c by blast
  obtain v5 where v5: "calculate_metric (columns snap) (filter (\<lambda>r. current_segment r = Some seg \<and> base_segment r \<noteq> None \<and> base_segment r \<noteq> Some seg) (rows snap)) ''current'' metric = Inr v5"
    using c by blast
  obtain v6 where v6: "calculate_metric (columns snap) (filter (\<lambda>r. base_segment r = Some seg \<and> current_segment r \<noteq> None \<and> current_segment r \<noteq> Some seg) (rows snap)) ''base'' metric = Inr v6"
    using b by blast
  obtain v7 where v7: "calculate_metric (columns snap) (filter (\<lambda>r. base_segment r = Some seg \<and> current_segment r = None) (rows snap)) ''base'' metric = Inr v7"
    using b by blast
  show ?thesis
    unfolding summary_row_for_def Let_def v1 v2 v3 v4 v5 v6 v7 then_do_Inr by blast
qed

subsection \<open>A worked example\<close>

text \<open>
  The example of the specification: E1 stays in SEG01, E2 leaves the system from SEG02,
  E3 enters the system in SEG03; one revenue metric \<open>p1_rev_wf\<close>.
\<close>

definition cells_of :: "(string \<times> real) list \<Rightarrow> string \<Rightarrow> real" where
  "cells_of al c = (case map_of al c of Some v \<Rightarrow> v | None \<Rightarrow> 0)"

definition example_snapshot :: snapshot where
  "example_snapshot =
     \<lparr>metric_columns = [''base_p1_rev_wf'', ''current_p1_rev_wf''],
      rows = [
        \<lparr>entity = ''E1'', base_segment = Some ''SEG01'', current_segment = Some ''SEG01'',
         status = ''Retained'',
         metric_value = cells_of [(''base_p1_rev_wf'', 10000), (''current_p1_rev_wf'', 7000)]\<rparr>,
        \<lparr>entity = ''E2'', base_segment = Some ''SEG02'', current_segment = None,
         status = ''Lost (System)'',
         metric_value = cells_of [(''base_p1_rev_wf'', 500)]\<rparr>,
        \<lparr>entity = ''E3'', base_segment = None, current_segment = Some ''SEG03'',
         status = ''New (System)'',
         metric_value = cells_of [(''current_p1_rev_wf'', 12000)]\<rparr>]\<rparr>"

definition example_summary :: "summary_row list" where
  "example_summary =
     [\<lparr>Segment = ''SEG01'', Base = 1, Current = 1, Retained = 1, New_System = 0,
       Added_Other_Seg = 0, Lost_Other_Seg = 0, Lost_System = 0, Net_Change = 0\<rparr>,
      \<lparr>Segment = ''SEG02'', Base = 1, Current = 0, Retained = 0, New_System = 0,
       Added_Other_Seg = 0, Lost_Other_Seg = 0, Lost_System = 1, Net_Change = - 1\<rparr>,
      \<lparr>Segment = ''SEG03'', Base = 0, Current = 1, Retained = 0, New_System = 1,
       Added_Other_Seg = 0, Lost_Other_Seg = 0, Lost_System = 0, Net_Change = 1\<rparr>,
      \<lparr>Segment = ''TOTAL'', Base = 2, Current = 2, Retained = 1, New_System = 1,
       Added_Other_Seg = 0, Lost_Other_Seg = 0, Lost_System = 1, Net_Change = 0\<rparr>]"


lemma all_segments_example: "all_segments example_snapshot = [''SEG01'', ''SEG02'', ''SEG03'']"
  by code_simp

lemma example_summary_count:
  "generate_summary_view example_snapshot ''count'' = Inr example_summary"
  by code_simp


lemma generate_summary_view_Inr:
  assumes "generate_summary_view snap metric = Inr tbl"
  obtains df where "map_err (summary_row_for snap metric) (all_segments snap) = Inr df"
    and "df \<noteq> []" and "tbl = df @ [totals df]"
  using assms by (auto simp: generate_summary_view_def split: if_splits)

lemma generate_summary_view_total:
  assumes "metric \<noteq> ''segment''" and "all_segments snap \<noteq> []"
  shows "\<exists>tbl. generate_summary_view snap metric = Inr tbl"
proof -
  obtain df where df: "map_err (summary_row_for snap metric) (all_segments snap) = Inr df"
    using map_err_total [of "all_segments snap" "summary_row_for snap metric"]
      summary_row_for_total [OF assms(1)] by blast
  from map_err_Inr_length [OF df] assms(2) have "df \<noteq> []" by auto
  with df show ?thesis by (simp add: generate_summary_view_def)
qed

text \<open>
  Claim C2. Whenever the summary view is produced, its last row is the appended TOTAL
  row, the rows before it are the per-segment rows (one per segment of either period,
  in sorted order), and every numeric column of the TOTAL row is the sum of that column
  down the per-segment rows. The view is produced for every snapshot with at least one
  segment code and every selector other than \<open>segment\<close>.
\<close>

theorem summary_total_row:
  "(metric \<noteq> ''segment'' \<longrightarrow> all_segments snap \<noteq> [] \<longrightarrow>
      (\<exists>t. generate_summary_view snap metric = Inr t))
   \<and> (generate_summary_view snap metric = Inr tbl \<longrightarrow>
        tbl \<noteq> []
      \<and> Segment (last tbl) = ''TOTAL''
      \<and> map Segment (butlast tbl) = all_segments snap
      \<and> Base (last tbl) = sum_list (map Base (butlast tbl))
      \<and> Current (last tbl) = sum_list (map Current (butlast tbl))
      \<and> Retained (last tbl) = sum_list (map Retained (butlast tbl))
      \<and> New_System (last tbl) = sum_list (map New_System (butlast tbl))
      \<and> Added_Other_Seg (last tbl) = sum_list (map Added_Other_Seg (butlast tbl))
      \<and> Lost_Other_Seg (last tbl) = sum_list (map Lost_Other_Seg (butlast tbl))
      \<and> Lost_System (last tbl) = sum_list (map Lost_System (butlast tbl))
      \<and> Net_Change (last tbl) = sum_list (map Net_Change (butlast tbl)))"
proof (intro conjI impI)
  assume "metric \<noteq> ''segment''" "all_segments snap \<noteq> []"
  then show "\<exists>t. generate_summary_view snap metric = Inr t"
    by (rule generate_summary_view_total)
next
  assume a: "generate_summary_view snap metric = Inr tbl"
  then obtain df where df: "map_err (summary_row_for snap metric) (all_segments snap) = Inr df"
    and tbl: "tbl = df @ [totals df]"
    by (rule generate_summary_view_Inr)
  have bl: "butlast tbl = df" and l: "last tbl = totals df"
    by (simp_all add: tbl)
  show "tbl \<noteq> []" by (simp add: tbl)
  show "Segment (last tbl) = ''TOTAL''" by (simp add: l totals_def)
  show "map Segment (butlast tbl) = all_segments snap"
    unfolding bl by (rule map_err_Inr_map [OF df]) (rule summary_row_for_Segment)
  show "Base (last tbl) = sum_list (map Base (butlast tbl))"
    by (simp add: bl l totals_def)
  show "Current (last tbl) = sum_list (map Current (butlast tbl))"
    by (simp add: bl l totals_def)
  show "Retained (last tbl) = sum_list (map Retained (butlast tbl))"
    by (simp add: bl l totals_def)
  show "New_System (last tbl) = sum_list (map New_System (butlast tbl))"
    by (simp add: bl l totals_def)
  show "Added_Other_Seg (last tbl) = sum_list (map Added_Other_Seg (butlast tbl))"
    by (simp add: bl l totals_def)
  show "Lost_Other_Seg (last tbl) = sum_list (map Lost_Other_Seg (butlast tbl))"
    by (simp add: bl l totals_def)
  show "Lost_System (last tbl) = sum_list (map Lost_System (butlast tbl))"
    by (simp add: bl l totals_def)
  show "Net_Change (last tbl) = sum_list (map Net_Change (butlast tbl))"
    by (simp add: bl l totals_def)
qed

theorem summary_total_row_witness:
  "generate_summary_view example_snapshot ''count'' = Inr example_summary
   \<and> Segment (last example_summary) = ''TOTAL''
   \<and> map Segment (butlast example_summary) = all_segments example_snapshot
   \<and> Base (last example_summary) = sum_list (map Base (butlast example_summary))
   \<and> Base (last example_summary) = 2
   \<and> Current (last example_summary) = 2
   \<and> Retained (last example_summary) = 1
   \<and> New_System (last example_summary) = 1
   \<and> Lost_System (last example_summary) = 1
   \<and> Net_Change (last example_summary) = sum_list (map Net_Change (butlast example_summary))
   \<and> Net_Change (last example_summary) = 0"
  using summary_total_row [of "''count''" example_snapshot example_summary]
    example_summary_count
  by (simp add: example_summary_def)

text \<open>
  Claim C9. In every per-segment row of a produced summary view, the Current column is
  the sum of the Retained, New (System) and Added (Other Seg) columns (over the reals):
  the rows whose current segment is the row's segment split by their base segment being
  null, the same or another one.
\<close>

theorem summary_current_decomposition:
  "(metric \<noteq> ''segment'' \<longrightarrow> all_segments snap \<noteq> [] \<longrightarrow>
      (\<exists>t. generate_summary_view snap metric = Inr t))
   \<and> (generate_summary_view snap metric = Inr tbl \<longrightarrow>
      (\<forall>row \<in> set (butlast tbl).
         Current row = Retained row + New_System row + Added_Other_Seg row))"
proof (intro conjI impI ballI)
  assume "metric \<noteq> ''segment''" "all_segments snap \<noteq> []"
  then show "\<exists>t. generate_summary_view snap metric = Inr t"
    by (rule generate_summary_view_total)
next
  fix row
  assume a: "generate_summary_view snap metric = Inr tbl" and r: "row \<in> set (butlast tbl)"
  from a obtain df where df: "map_err (summary_row_for snap metric) (all_segments snap) = Inr df"
    and tbl: "tbl = df @ [totals df]"
    by (rule generate_summary_view_Inr)
  from r have "row \<in> set df" by (simp add: tbl)
  from map_err_Inr_set [OF df this]
  obtain seg where "summary_row_for snap metric seg = Inr row" by auto
  then show "Current row = Retained row + New_System row + Added_Other_Seg row"
    by (rule summary_row_for_Current)
qed

definition example_revenue_summary :: "summary_row list" where
  "example_revenue_summary =
     [\<lparr>Segment = ''SEG01'', Base = 10000, Current = 7000, Retained = 7000, New_System = 0,
       Added_Other_Seg = 0, Lost_Other_Seg = 0, Lost_System = 0, Net_Change = - 3000\<rparr>,
      \<lparr>Segment = ''SEG02'', Base = 500, Current = 0, Retained = 0, New_System = 0,
       Added_Other_Seg = 0, Lost_Other_Seg = 0, Lost_System = 500, Net_Change = - 500\<rparr>,
      \<lparr>Segment = ''SEG03'', Base = 0, Current = 12000, Retained = 0, New_System = 12000,
       Added_Other_Seg = 0, Lost_Other_Seg = 0, Lost_System = 0, Net_Change = 12000\<rparr>,
      \<lparr>Segment = ''TOTAL'', Base = 10500, Current = 19000, Retained = 7000, New_System = 12000,
       Added_Other_Seg = 0, Lost_Other_Seg = 0, Lost_System = 500, Net_Change = 8500\<rparr>]"

lemma example_summary_revenue:
  "generate_summary_view example_snapshot ''p1_rev_wf'' = Inr example_revenue_summary"
  by code_simp

theorem summary_current_decomposition_witness:
  "generate_summary_view example_snapshot ''p1_rev_wf'' = Inr example_revenue_summary
   \<and> example_revenue_summary ! 2 \<in> set (butlast example_revenue_summary)
   \<and> Current (example_revenue_summary ! 2) =
       Retained (example_revenue_summary ! 2) + New_System (example_revenue_summary ! 2)
       + Added_Other_Seg (example_revenue_summary ! 2)
   \<and> Current (example_revenue_summary ! 2) = 12000"
  using summary_current_decomposition [of "''p1_rev_wf''" example_snapshot example_revenue_summary]
    example_summary_revenue
  by (simp add: example_revenue_summary_def)

section \<open>Movement matrix (src/analysis/matrix.py)\<close>

text \<open>
  A frame addressed by labels: the row labels, the column labels, and the cell for each
  pair of labels. Rows (or columns) that carry the same label share their cells, as
  label-based assignment in pandas writes all of them at once.
\<close>

record matrix =
  index :: "string list"
  mcolumns :: "string list"
  cell :: "string \<Rightarrow> string \<Rightarrow> real"

text \<open>\<open>matrix.loc[r, c] = v\<close>\<close>

definition loc_set :: "matrix \<Rightarrow> string \<Rightarrow> string \<Rightarrow> real \<Rightarrow> matrix" where
  "loc_set M r c v = M\<lparr>cell := (cell M)(r := (cell M r)(c := v))\<rparr>"

text \<open>The inner loop over the current segments, for one base segment.\<close>

primrec fill_movements :: "snapshot \<Rightarrow> string \<Rightarrow> string \<Rightarrow> string list \<Rightarrow> matrix \<Rightarrow> error + matrix" where
  "fill_movements snap metric base_seg [] M = Inr M"
| "fill_movements snap metric base_seg (curr_seg # cs) M =
     then_do (calculate_metric (columns snap)
                (filter (\<lambda>r. base_segment r = Some base_seg \<and> current_segment r = Some curr_seg)
                   (rows snap)) ''current'' metric)
       (\<lambda>v. fill_movements snap metric base_seg cs (loc_set M base_seg curr_seg v))"

text \<open>The outer loop over the base segments: the movements, then the \<open>Lost\<close> cell.\<close>

primrec fill_base :: "snapshot \<Rightarrow> string \<Rightarrow> string list \<Rightarrow> string list \<Rightarrow> matrix \<Rightarrow> error + matrix" where
  "fill_base snap metric cs [] M = Inr M"
| "fill_base snap metric cs (base_seg # bs) M =
     then_do (fill_movements snap metric base_seg cs M) (\<lambda>M1.
     then_do (calculate_metric (columns snap)
                (filter (\<lambda>r. base_segment r = Some base_seg \<and> current_segment r = None)
                   (rows snap)) ''base'' metric)
       (\<lambda>v. fill_base snap metric cs bs (loc_set M1 base_seg ''Lost'' v)))"

text \<open>The loop that fills the \<open>New\<close> row.\<close>

primrec fill_new :: "snapshot \<Rightarrow> string \<Rightarrow> string list \<Rightarrow> matrix \<Rightarrow> error + matrix" where
  "fill_new snap metric [] M = Inr M"
| "fill_new snap metric (curr_seg # cs) M =
     then_do (calculate_metric (columns snap)
                (filter (\<lambda>r. current_segment r = Some curr_seg \<and> base_segment r = None)
                   (rows snap)) ''current'' metric)
       (\<lambda>v. fill_new snap metric cs (loc_set M ''New'' curr_seg v))"

text \<open>
  \<open>matrix['Total Out'] = matrix.sum(axis=1)\<close>: a column holding, for every row, the sum
  over the columns present; an existing column of that name is overwritten.
\<close>

definition add_total_out :: "matrix \<Rightarrow> matrix" where
  "add_total_out M =
     M\<lparr>mcolumns := (if ''Total Out'' \<in> set (mcolumns M) then mcolumns M
                     else mcolumns M @ [''Total Out'']),
       cell := (\<lambda>r. if r \<in> set (index M)
                     then (cell M r)(''Total Out'' := sum_list (map (cell M r) (mcolumns M)))
                     else cell M r)\<rparr>"

text \<open>
  \<open>matrix.loc['Total In'] = matrix.sum(axis=0)\<close>: a row holding, for every column
  (the new \<open>Total Out\<close> column included), the sum over the rows present.
\<close>

definition add_total_in :: "matrix \<Rightarrow> matrix" where
  "add_total_in M =
     M\<lparr>index := (if ''Total In'' \<in> set (index M) then index M else index M @ [''Total In'']),
       cell := (cell M)(''Total In'' :=
                  (\<lambda>c. if c \<in> set (mcolumns M)
                       then sum_list (map (\<lambda>r. cell M r c) (index M))
                       else cell M ''Total In'' c))\<rparr>"

text \<open>
  The matrix starts as zeros over (base segments and \<open>New\<close>) by (current segments and
  \<open>Lost\<close>). The final \<open>reset_index\<close> moves the row labels into a first column; the
  model keeps them as \<^const>\<open>index\<close>.
\<close>

definition generate_movement_matrix :: "snapshot \<Rightarrow> string \<Rightarrow> error + matrix" where
  "generate_movement_matrix snap metric =
     (let bs = base_segments snap;
          cs = curr_segments snap;
          M0 = \<lparr>index = bs @ [''New''], mcolumns = cs @ [''Lost''], cell = (\<lambda>r c. 0)\<rparr>
      in then_do (fill_base snap metric cs bs M0) (\<lambda>M1.
         then_do (fill_new snap metric cs M1) (\<lambda>M2.
           Inr (add_total_in (add_total_out M2)))))"

text \<open>
  The sum of the flow cells of a finished matrix: every row but the appended
  \<open>Total In\<close>, every column but the appended \<open>Total Out\<close>.
\<close>

definition flow_total :: "matrix \<Rightarrow> real" where
  "flow_total M =
     sum_list (map (\<lambda>r. sum_list (map (cell M r) (butlast (mcolumns M)))) (butlast (index M)))"

subsection \<open>Properties of the movement matrix\<close>

text \<open>The three counts the cells hold for the selector \<open>count\<close>.\<close>

definition moved_count :: "snapshot_row list \<Rightarrow> string \<Rightarrow> string \<Rightarrow> real" where
  "moved_count rs b c =
     real (length (filter (\<lambda>r. base_segment r = Some b \<and> current_segment r = Some c) rs))"

definition lost_count :: "snapshot_row list \<Rightarrow> string \<Rightarrow> real" where
  "lost_count rs b =
     real (length (filter (\<lambda>r. base_segment r = Some b \<and> current_segment r = None) rs))"

definition new_count :: "snapshot_row list \<Rightarrow> string \<Rightarrow> real" where
  "new_count rs c =
     real (length (filter (\<lambda>r. current_segment r = Some c \<and> base_segment r = None) rs))"

lemma loc_set_simps [simp]:
  "index (loc_set M r c v) = index M"
  "mcolumns (loc_set M r c v) = mcolumns M"
  "cell (loc_set M r c v) r' c' = (if r' = r \<and> c' = c then v else cell M r' c')"
  by (simp_all add: loc_set_def)

lemma fill_movements_count:
  "\<exists>M'. fill_movements snap ''count'' b cs M = Inr M'
      \<and> index M' = index M \<and> mcolumns M' = mcolumns M
      \<and> (\<forall>r c. cell M' r c =
            (if r = b \<and> c \<in> set cs then moved_count (rows snap) b c else cell M r c))"
proof (induction cs arbitrary: M)
  case Nil
  show ?case by simp
next
  case (Cons c cs)
  let ?M1 = "loc_set M b c (moved_count (rows snap) b c)"
  from Cons [of ?M1] obtain M' where
    M': "fill_movements snap ''count'' b cs ?M1 = Inr M'"
    "index M' = index ?M1" "mcolumns M' = mcolumns ?M1"
    "\<forall>r c'. cell M' r c' =
        (if r = b \<and> c' \<in> set cs then moved_count (rows snap) b c' else cell ?M1 r c')"
    by blast
  have "fill_movements snap ''count'' b (c # cs) M = Inr M'"
    using M'(1) by (simp add: calculate_metric_count moved_count_def)
  moreover have "\<forall>r c'. cell M' r c' =
        (if r = b \<and> c' \<in> set (c # cs) then moved_count (rows snap) b c' else cell M r c')"
    using M'(4) by auto
  moreover have "index M' = index M" "mcolumns M' = mcolumns M"
    using M'(2,3) by simp_all
  ultimately show ?case by blast
qed

lemma fill_base_count:
  assumes "''Lost'' \<notin> set cs"
  shows "\<exists>M'. fill_base snap ''count'' cs bs M = Inr M'
      \<and> index M' = index M \<and> mcolumns M' = mcolumns M
      \<and> (\<forall>r c. cell M' r c =
            (if r \<in> set bs \<and> c \<in> set cs then moved_count (rows snap) r c
             else if r \<in> set bs \<and> c = ''Lost'' then lost_count (rows snap) r
             else cell M r c))"
proof (induction bs arbitrary: M)
  case Nil
  show ?case by simp
next
  case (Cons b bs)
  obtain M1 where M1: "fill_movements snap ''count'' b cs M = Inr M1"
    "index M1 = index M" "mcolumns M1 = mcolumns M"
    "\<forall>r c. cell M1 r c =
        (if r = b \<and> c \<in> set cs then moved_count (rows snap) b c else cell M r c)"
    using fill_movements_count [of snap b cs M] by blast
  let ?M2 = "loc_set M1 b ''Lost'' (lost_count (rows snap) b)"
  from Cons [of ?M2] obtain M' where
    M': "fill_base snap ''count'' cs bs ?M2 = Inr M'"
    "index M' = index ?M2" "mcolumns M' = mcolumns ?M2"
    "\<forall>r c. cell M' r c =
        (if r \<in> set bs \<and> c \<in> set cs then moved_count (rows snap) r c
         else if r \<in> set bs \<and> c = ''Lost'' then lost_count (rows snap) r
         else cell ?M2 r c)"
    by blast
  have "fill_base snap ''count'' cs (b # bs) M = Inr M'"
    using M1(1) M'(1) by (simp add: calculate_metric_count lost_count_def)
  moreover have "\<forall>r c. cell M' r c =
        (if r \<in> set (b # bs) \<and> c \<in> set cs then moved_count (rows snap) r c
         else if r \<in> set (b # bs) \<and> c = ''Lost'' then lost_count (rows snap) r
         else cell M r c)"
    using M'(4) M1(4) assms by auto
  moreover have "index M' = index M" "mcolumns M' = mcolumns M"
    using M'(2,3) M1(2,3) by simp_all
  ultimately show ?case by blast
qed

lemma fill_new_count:
  "\<exists>M'. fill_new snap ''count'' cs M = Inr M'
      \<and> index M' = index M \<and> mcolumns M' = mcolumns M
      \<and> (\<forall>r c. cell M' r c =
            (if r = ''New'' \<and> c \<in> set cs then new_count (rows snap) c else cell M r c))"
proof (induction cs arbitrary: M)
  case Nil
  show ?case by simp
next
  case (Cons c cs)
  let ?M1 = "loc_set M ''New'' c (new_count (rows snap) c)"
  from Cons [of ?M1] obtain M' where
    M': "fill_new snap ''count'' cs ?M1 = Inr M'"
    "index M' = index ?M1" "mcolumns M' = mcolumns ?M1"
    "\<forall>r c'. cell M' r c' =
        (if r = ''New'' \<and> c' \<in> set cs then new_count (rows snap) c' else cell ?M1 r c')"
    by blast
  have "fill_new snap ''count'' (c # cs) M = Inr M'"
    using M'(1) by (simp add: calculate_metric_count new_count_def)
  moreover have "\<forall>r c'. cell M' r c' =
        (if r = ''New'' \<and> c' \<in> set (c # cs) then new_count (rows snap) c' else cell M r c')"
    using M'(4) by auto
  moreover have "index M' = index M" "mcolumns M' = mcolumns M"
    using M'(2,3) by simp_all
  ultimately show ?case by blast
qed

lemma indicator_sum_distinct:
  "distinct xs \<Longrightarrow> sum_list (map (\<lambda>x. if x = a then 1 else 0) xs) = (if a \<in> set xs then 1 else (0::real))"
  by (induction xs) auto

lemma sum_list_add_distrib:
  "sum_list (map (\<lambda>x. f x + g x) xs) = sum_list (map f xs) + (sum_list (map g xs) :: real)"
  by (induction xs) (simp_all add: algebra_simps)

lemma sum_list_zero: "sum_list (map (\<lambda>x. 0) xs) = (0::real)"
  by (induction xs) simp_all

lemma moved_count_Cons:
  "moved_count (r # rs) b c =
     (if base_segment r = Some b \<and> current_segment r = Some c then 1 else 0) + moved_count rs b c"
  by (simp add: moved_count_def)

lemma lost_count_Cons:
  "lost_count (r # rs) b =
     (if base_segment r = Some b \<and> current_segment r = None then 1 else 0) + lost_count rs b"
  by (simp add: lost_count_def)

lemma new_count_Cons:
  "new_count (r # rs) c =
     (if current_segment r = Some c \<and> base_segment r = None then 1 else 0) + new_count rs c"
  by (simp add: new_count_def)

text \<open>The number of rows a flow cell counts, for one row.\<close>

definition row_flows :: "string list \<Rightarrow> string list \<Rightarrow> snapshot_row \<Rightarrow> real" where
  "row_flows bs cs r =
     (case (base_segment r, current_segment r) of
        (Some b, Some c) \<Rightarrow> if b \<in> set bs \<and> c \<in> set cs then 1 else 0
      | (Some b, None) \<Rightarrow> if b \<in> set bs then 1 else 0
      | (None, Some c) \<Rightarrow> if c \<in> set cs then 1 else 0
      | (None, None) \<Rightarrow> 0)"

lemma moved_indicator:
  assumes "distinct bs" "distinct cs"
  shows "sum_list (map (\<lambda>b. sum_list (map (\<lambda>c.
            if base_segment r = Some b \<and> current_segment r = Some c then 1 else (0::real)) cs)) bs)
       = (case (base_segment r, current_segment r) of
            (Some b, Some c) \<Rightarrow> if b \<in> set bs \<and> c \<in> set cs then 1 else 0
          | _ \<Rightarrow> 0)"
proof (cases "base_segment r")
  case None
  then show ?thesis by (simp add: sum_list_zero)
next
  case (Some b0)
  show ?thesis
  proof (cases "current_segment r")
    case None
    with Some show ?thesis by (simp add: sum_list_zero)
  next
    case c0: (Some c0)
    have inner: "\<And>b. sum_list (map (\<lambda>c. if b0 = b \<and> c0 = c then 1 else (0::real)) cs)
        = (if b = b0 then (if c0 \<in> set cs then 1 else 0) else 0)"
    proof -
      fix b
      show "sum_list (map (\<lambda>c. if b0 = b \<and> c0 = c then 1 else (0::real)) cs)
        = (if b = b0 then (if c0 \<in> set cs then 1 else 0) else 0)"
      proof (cases "b = b0")
        case True
        have "(\<lambda>c. if b0 = b \<and> c0 = c then 1 else (0::real))
            = (\<lambda>c. if c = c0 then 1 else 0)"
          using True by auto
        then show ?thesis using True indicator_sum_distinct [OF assms(2), of c0] by simp
      next
        case False
        then have "(\<lambda>c. if b0 = b \<and> c0 = c then 1 else (0::real)) = (\<lambda>c. 0)"
          by auto
        then show ?thesis using False by (simp add: sum_list_zero)
      qed
    qed
    have "sum_list (map (\<lambda>b. if b = b0 then (if c0 \<in> set cs then 1 else 0) else (0::real)) bs)
        = (if b0 \<in> set bs \<and> c0 \<in> set cs then 1 else 0)"
    proof (cases "c0 \<in> set cs")
      case True
      then show ?thesis using indicator_sum_distinct [OF assms(1), of b0] by simp
    next
      case False
      then show ?thesis by (simp add: sum_list_zero)
    qed
    then have "sum_list (map (\<lambda>b. sum_list (map (\<lambda>c.
            if b0 = b \<and> c0 = c then 1 else (0::real)) cs)) bs)
        = (if b0 \<in> set bs \<and> c0 \<in> set cs then 1 else 0)"
      by (simp only: inner)
    then show ?thesis using Some c0 by simp
  qed
qed

lemma lost_indicator:
  assumes "distinct bs"
  shows "sum_list (map (\<lambda>b. if base_segment r = Some b \<and> current_segment r = None then 1 else (0::real)) bs)
       = (case (base_segment r, current_segment r) of
            (Some b, None) \<Rightarrow> if b \<in> set bs then 1 else 0
          | _ \<Rightarrow> 0)"
proof (cases "base_segment r")
  case None
  then show ?thesis by (simp add: sum_list_zero)
next
  case (Some b0)
  show ?thesis
  proof (cases "current_segment r")
    case None
    have "(\<lambda>b. if Some b0 = Some b then 1 else (0::real)) = (\<lambda>b. if b = b0 then 1 else 0)"
      by auto
    then show ?thesis using Some None indicator_sum_distinct [OF assms, of b0] by simp
  next
    case c0: (Some c0)
    with Some show ?thesis by (simp add: sum_list_zero)
  qed
qed

lemma new_indicator:
  assumes "distinct cs"
  shows "sum_list (map (\<lambda>c. if current_segment r = Some c \<and> base_segment r = None then 1 else (0::real)) cs)
       = (case (base_segment r, current_segment r) of
            (None, Some c) \<Rightarrow> if c \<in> set cs then 1 else 0
          | _ \<Rightarrow> 0)"
proof (cases "current_segment r")
  case None
  then show ?thesis by (cases "base_segment r") (simp_all add: sum_list_zero)
next
  case (Some c0)
  show ?thesis
  proof (cases "base_segment r")
    case None
    have "(\<lambda>c. if Some c0 = Some c then 1 else (0::real)) = (\<lambda>c. if c = c0 then 1 else 0)"
      by auto
    then show ?thesis using Some None indicator_sum_distinct [OF assms, of c0] by simp
  next
    case b0: (Some b0)
    with Some show ?thesis by (simp add: sum_list_zero)
  qed
qed

lemma row_flows_split:
  "row_flows bs cs r =
     (case (base_segment r, current_segment r) of
        (Some b, Some c) \<Rightarrow> if b \<in> set bs \<and> c \<in> set cs then 1 else 0 | _ \<Rightarrow> 0)
   + (case (base_segment r, current_segment r) of
        (Some b, None) \<Rightarrow> if b \<in> set bs then 1 else 0 | _ \<Rightarrow> 0)
   + (case (base_segment r, current_segment r) of
        (None, Some c) \<Rightarrow> if c \<in> set cs then 1 else 0 | _ \<Rightarrow> 0)"
  by (simp add: row_flows_def split: option.splits)

lemma flow_counts_total:
  assumes "distinct bs" "distinct cs"
  shows "sum_list (map (\<lambda>b. sum_list (map (moved_count rs b) cs)) bs)
       + sum_list (map (lost_count rs) bs)
       + sum_list (map (new_count rs) cs)
       = sum_list (map (row_flows bs cs) rs)"
proof (induction rs)
  case Nil
  show ?case by (simp add: moved_count_def lost_count_def new_count_def sum_list_zero)
next
  case (Cons r rs)
  have m: "sum_list (map (\<lambda>b. sum_list (map (moved_count (r # rs) b) cs)) bs)
      = (case (base_segment r, current_segment r) of
           (Some b, Some c) \<Rightarrow> if b \<in> set bs \<and> c \<in> set cs then 1 else 0 | _ \<Rightarrow> 0)
        + sum_list (map (\<lambda>b. sum_list (map (moved_count rs b) cs)) bs)"
    unfolding moved_count_Cons sum_list_add_distrib moved_indicator [OF assms] ..
  have l: "sum_list (map (lost_count (r # rs)) bs)
      = (case (base_segment r, current_segment r) of
           (Some b, None) \<Rightarrow> if b \<in> set bs then 1 else 0 | _ \<Rightarrow> 0)
        + sum_list (map (lost_count rs) bs)"
    unfolding lost_count_Cons sum_list_add_distrib lost_indicator [OF assms(1)] ..
  have n: "sum_list (map (new_count (r # rs)) cs)
      = (case (base_segment r, current_segment r) of
           (None, Some c) \<Rightarrow> if c \<in> set cs then 1 else 0 | _ \<Rightarrow> 0)
        + sum_list (map (new_count rs) cs)"
    unfolding new_count_Cons sum_list_add_distrib new_indicator [OF assms(2)] ..
  show ?case
    unfolding m l n list.map sum_list.Cons row_flows_split [of bs cs r]
    using Cons.IH by simp
qed

lemma row_flows_covered:
  assumes "\<forall>r \<in> set rs. base_segment r \<noteq> None \<or> current_segment r \<noteq> None"
    and "\<forall>r \<in> set rs. \<forall>b. base_segment r = Some b \<longrightarrow> b \<in> set bs"
    and "\<forall>r \<in> set rs. \<forall>c. current_segment r = Some c \<longrightarrow> c \<in> set cs"
  shows "sum_list (map (row_flows bs cs) rs) = real (length rs)"
  using assms
proof (induction rs)
  case Nil
  show ?case by simp
next
  case (Cons r rs)
  then have "row_flows bs cs r = 1"
    by (cases "base_segment r"; cases "current_segment r") (auto simp: row_flows_def)
  with Cons show ?case by simp
qed

lemma set_map_filter_Some:
  "set (List.map_filter f xs) = {y. \<exists>x \<in> set xs. f x = Some y}"
  by (induction xs) (auto simp: List.map_filter_def)

lemma base_segments_set:
  "set (base_segments snap) = {b. \<exists>r \<in> set (rows snap). base_segment r = Some b}"
  by (simp add: base_segments_def set_map_filter_Some)

lemma curr_segments_set:
  "set (curr_segments snap) = {c. \<exists>r \<in> set (rows snap). current_segment r = Some c}"
  by (simp add: curr_segments_def set_map_filter_Some)

lemma base_segments_distinct: "distinct (base_segments snap)"
  by (simp add: base_segments_def)

lemma curr_segments_distinct: "distinct (curr_segments snap)"
  by (simp add: curr_segments_def)

lemma all_segments_set:
  "set (all_segments snap) = set (base_segments snap) \<union> set (curr_segments snap)"
  by (simp add: all_segments_def base_segments_def curr_segments_def)

text \<open>The labels the matrix adds to the segment codes.\<close>

definition reserved_labels :: "string list" where
  "reserved_labels = [''New'', ''Lost'', ''Total Out'', ''Total In'']"

lemma cell_add_total_out:
  "cell (add_total_out M) r c =
     (if r \<in> set (index M) \<and> c = ''Total Out'' then sum_list (map (cell M r) (mcolumns M))
      else cell M r c)"
  by (simp add: add_total_out_def)

lemma cell_add_total_in:
  "cell (add_total_in M) r c =
     (if r = ''Total In'' \<and> c \<in> set (mcolumns M) then sum_list (map (\<lambda>r. cell M r c) (index M))
      else cell M r c)"
  by (simp add: add_total_in_def)

lemma movement_matrix_count:
  fixes snap :: snapshot
  defines "bs \<equiv> base_segments snap" and "cs \<equiv> curr_segments snap"
  assumes res: "set reserved_labels \<inter> set (all_segments snap) = {}"
  obtains M where "generate_movement_matrix snap ''count'' = Inr M"
    and "index M = bs @ [''New'', ''Total In'']"
    and "mcolumns M = cs @ [''Lost'', ''Total Out'']"
    and "\<And>b c. b \<in> set bs \<Longrightarrow> c \<in> set cs \<Longrightarrow> cell M b c = moved_count (rows snap) b c"
    and "\<And>b. b \<in> set bs \<Longrightarrow> cell M b ''Lost'' = lost_count (rows snap) b"
    and "\<And>c. c \<in> set cs \<Longrightarrow> cell M ''New'' c = new_count (rows snap) c"
    and "cell M ''New'' ''Lost'' = 0"
    and "\<And>r. r \<in> set (bs @ [''New'']) \<Longrightarrow>
           cell M r ''Total Out'' = sum_list (map (cell M r) (cs @ [''Lost'']))"
    and "\<And>c. c \<in> set (cs @ [''Lost'', ''Total Out'']) \<Longrightarrow>
           cell M ''Total In'' c = sum_list (map (\<lambda>r. cell M r c) (bs @ [''New'']))"
proof -
  from res have nb: "''New'' \<notin> set bs" "''Total In'' \<notin> set bs"
    and nc: "''Lost'' \<notin> set cs" "''Total Out'' \<notin> set cs"
    by (auto simp: reserved_labels_def all_segments_set bs_def cs_def)
  let ?M0 = "\<lparr>index = bs @ [''New''], mcolumns = cs @ [''Lost''], cell = (\<lambda>r c. 0)\<rparr>"
  obtain M1 where M1: "fill_base snap ''count'' cs bs ?M0 = Inr M1"
    "index M1 = index ?M0" "mcolumns M1 = mcolumns ?M0"
    "\<forall>r c. cell M1 r c =
        (if r \<in> set bs \<and> c \<in> set cs then moved_count (rows snap) r c
         else if r \<in> set bs \<and> c = ''Lost'' then lost_count (rows snap) r
         else cell ?M0 r c)"
    using fill_base_count [OF nc(1), of snap bs ?M0] by blast
  obtain M2 where M2: "fill_new snap ''count'' cs M1 = Inr M2"
    "index M2 = index M1" "mcolumns M2 = mcolumns M1"
    "\<forall>r c. cell M2 r c =
        (if r = ''New'' \<and> c \<in> set cs then new_count (rows snap) c else cell M1 r c)"
    using fill_new_count [of snap cs M1] by blast
  have i2: "index M2 = bs @ [''New'']" and c2: "mcolumns M2 = cs @ [''Lost'']"
    using M1(2,3) M2(2,3) by simp_all
  have cell2: "\<And>r c. cell M2 r c =
        (if r = ''New'' \<and> c \<in> set cs then new_count (rows snap) c
         else if r \<in> set bs \<and> c \<in> set cs then moved_count (rows snap) r c
         else if r \<in> set bs \<and> c = ''Lost'' then lost_count (rows snap) r
         else 0)"
    using M1(4) M2(4) by simp
  let ?X = "add_total_out M2"
  let ?M = "add_total_in ?X"
  have iX: "index ?X = bs @ [''New'']" and cX: "mcolumns ?X = cs @ [''Lost'', ''Total Out'']"
    using nc(2) by (simp_all add: add_total_out_def i2 c2)
  have gen: "generate_movement_matrix snap ''count'' = Inr ?M"
    using M1(1) M2(1) by (simp add: generate_movement_matrix_def Let_def bs_def cs_def)
  have idx: "index ?M = bs @ [''New'', ''Total In'']"
    using nb(2) by (simp add: add_total_in_def iX)
  have cols: "mcolumns ?M = cs @ [''Lost'', ''Total Out'']"
    by (simp add: add_total_in_def cX)
  have flow: "\<And>r c. r \<in> set (bs @ [''New'']) \<Longrightarrow> c \<in> set (cs @ [''Lost'']) \<Longrightarrow>
      cell ?M r c = cell M2 r c"
    using nb nc by (auto simp: cell_add_total_in cell_add_total_out)
  have a: "\<And>b c. b \<in> set bs \<Longrightarrow> c \<in> set cs \<Longrightarrow> cell ?M b c = moved_count (rows snap) b c"
    using nb by (auto simp: flow cell2)
  have b: "\<And>b. b \<in> set bs \<Longrightarrow> cell ?M b ''Lost'' = lost_count (rows snap) b"
    using nb nc by (auto simp: flow cell2)
  have c: "\<And>c. c \<in> set cs \<Longrightarrow> cell ?M ''New'' c = new_count (rows snap) c"
    by (simp add: flow cell2)
  have d: "cell ?M ''New'' ''Lost'' = 0"
    using nb nc by (simp add: flow cell2)
  have e: "\<And>r. r \<in> set (bs @ [''New'']) \<Longrightarrow>
      cell ?M r ''Total Out'' = sum_list (map (cell ?M r) (cs @ [''Lost'']))"
  proof -
    fix r assume r: "r \<in> set (bs @ [''New''])"
    then have "r \<noteq> ''Total In''" using nb by auto
    then have "cell ?M r ''Total Out'' = sum_list (map (cell M2 r) (cs @ [''Lost'']))"
      using r by (simp add: cell_add_total_in cell_add_total_out i2 c2)
    also have "map (cell M2 r) (cs @ [''Lost'']) = map (cell ?M r) (cs @ [''Lost''])"
      by (rule map_cong [OF refl]) (simp add: flow [OF r])
    finally show "cell ?M r ''Total Out'' = sum_list (map (cell ?M r) (cs @ [''Lost'']))" .
  qed
  have f: "\<And>c. c \<in> set (cs @ [''Lost'', ''Total Out'']) \<Longrightarrow>
      cell ?M ''Total In'' c = sum_list (map (\<lambda>r. cell ?M r c) (bs @ [''New'']))"
  proof -
    fix c assume c: "c \<in> set (cs @ [''Lost'', ''Total Out''])"
    then have "cell ?M ''Total In'' c = sum_list (map (\<lambda>r. cell ?X r c) (bs @ [''New'']))"
      by (simp add: cell_add_total_in cX iX)
    also have "map (\<lambda>r. cell ?X r c) (bs @ [''New'']) = map (\<lambda>r. cell ?M r c) (bs @ [''New''])"
    proof (rule map_cong [OF refl])
      fix r assume "r \<in> set (bs @ [''New''])"
      then have "r \<noteq> ''Total In''" using nb by auto
      then show "cell ?X r c = cell ?M r c" by (simp add: cell_add_total_in)
    qed
    finally show "cell ?M ''Total In'' c = sum_list (map (\<lambda>r. cell ?M r c) (bs @ [''New'']))" .
  qed
  from gen idx cols a b c d e f show thesis by (rule that)
qed

text \<open>A snapshot in which one row has no segment in either period.\<close>

definition null_segment_snapshot :: snapshot where
  "null_segment_snapshot =
     \<lparr>metric_columns = [],
      rows = [
        \<lparr>entity = ''E1'', base_segment = None, current_segment = None,
         status = '''', metric_value = (\<lambda>c. 0)\<rparr>,
        \<lparr>entity = ''E2'', base_segment = Some ''SEG01'', current_segment = Some ''SEG01'',
         status = ''Retained'', metric_value = (\<lambda>c. 0)\<rparr>]\<rparr>"

lemma butlast_append2: "butlast (xs @ [a, b]) = xs @ [a]"
  by (simp add: butlast_append)

text \<open>
  Claim C5 (amended). For every snapshot in which every row has a segment in at least
  one period and no segment code is one of the labels \<open>New\<close>, \<open>Lost\<close>,
  \<open>Total Out\<close>, \<open>Total In\<close>, the movement matrix for the selector \<open>count\<close> is
  produced, its flow cells (all rows but \<open>Total In\<close>, all columns but \<open>Total Out\<close>)
  add up to the number of rows of the snapshot, the \<open>Total Out\<close> column holds the row
  sums and the \<open>Total In\<close> row holds the column sums.
\<close>

theorem movement_matrix_count_total:
  assumes "\<forall>r \<in> set (rows snap). base_segment r \<noteq> None \<or> current_segment r \<noteq> None"
    and "set reserved_labels \<inter> set (all_segments snap) = {}"
  shows "\<exists>M. generate_movement_matrix snap ''count'' = Inr M
      \<and> last (index M) = ''Total In'' \<and> last (mcolumns M) = ''Total Out''
      \<and> flow_total M = real (length (rows snap))
      \<and> (\<forall>r \<in> set (butlast (index M)).
            cell M r ''Total Out'' = sum_list (map (cell M r) (butlast (mcolumns M))))
      \<and> (\<forall>c \<in> set (mcolumns M).
            cell M ''Total In'' c = sum_list (map (\<lambda>r. cell M r c) (butlast (index M))))"
proof -
  let ?bs = "base_segments snap" and ?cs = "curr_segments snap" and ?rs = "rows snap"
  from movement_matrix_count [OF assms(2)] obtain M where
    gen: "generate_movement_matrix snap ''count'' = Inr M"
    and idx: "index M = ?bs @ [''New'', ''Total In'']"
    and cols: "mcolumns M = ?cs @ [''Lost'', ''Total Out'']"
    and mv: "\<And>b c. b \<in> set ?bs \<Longrightarrow> c \<in> set ?cs \<Longrightarrow> cell M b c = moved_count ?rs b c"
    and lo: "\<And>b. b \<in> set ?bs \<Longrightarrow> cell M b ''Lost'' = lost_count ?rs b"
    and nw: "\<And>c. c \<in> set ?cs \<Longrightarrow> cell M ''New'' c = new_count ?rs c"
    and nl: "cell M ''New'' ''Lost'' = 0"
    and out: "\<And>r. r \<in> set (?bs @ [''New'']) \<Longrightarrow>
           cell M r ''Total Out'' = sum_list (map (cell M r) (?cs @ [''Lost'']))"
    and inn: "\<And>c. c \<in> set (?cs @ [''Lost'', ''Total Out'']) \<Longrightarrow>
           cell M ''Total In'' c = sum_list (map (\<lambda>r. cell M r c) (?bs @ [''New'']))"
    by blast
  have bi: "butlast (index M) = ?bs @ [''New'']" and bc: "butlast (mcolumns M) = ?cs @ [''Lost'']"
    by (simp_all only: idx cols butlast_append2)
  have rowsum: "\<And>b. b \<in> set ?bs \<Longrightarrow>
      sum_list (map (cell M b) (?cs @ [''Lost''])) = sum_list (map (moved_count ?rs b) ?cs) + lost_count ?rs b"
  proof -
    fix b assume b: "b \<in> set ?bs"
    have e: "map (cell M b) ?cs = map (moved_count ?rs b) ?cs"
      by (rule map_cong [OF refl]) (rule mv [OF b])
    show "sum_list (map (cell M b) (?cs @ [''Lost''])) = sum_list (map (moved_count ?rs b) ?cs) + lost_count ?rs b"
      unfolding map_append sum_list_append e by (simp add: lo [OF b])
  qed
  have newsum: "sum_list (map (cell M ''New'') (?cs @ [''Lost''])) = sum_list (map (new_count ?rs) ?cs)"
  proof -
    have e: "map (cell M ''New'') ?cs = map (new_count ?rs) ?cs"
      by (rule map_cong [OF refl]) (rule nw)
    show ?thesis
      unfolding map_append sum_list_append e by (simp add: nl)
  qed
  define F where "F = (\<lambda>r. sum_list (map (cell M r) (?cs @ [''Lost''])))"
  have e: "map F ?bs = map (\<lambda>b. sum_list (map (moved_count ?rs b) ?cs) + lost_count ?rs b) ?bs"
    by (rule map_cong [OF refl]) (simp only: F_def rowsum)
  have n: "F ''New'' = sum_list (map (new_count ?rs) ?cs)"
    by (simp only: F_def newsum)
  have "flow_total M = sum_list (map F (?bs @ [''New'']))"
    by (simp only: flow_total_def bi bc F_def)
  also have "\<dots> = sum_list (map F ?bs) + F ''New''"
    by simp
  also have "\<dots> =
      sum_list (map (\<lambda>b. sum_list (map (moved_count ?rs b) ?cs) + lost_count ?rs b) ?bs)
      + sum_list (map (new_count ?rs) ?cs)"
    by (simp only: e n)
  also have "\<dots> = sum_list (map (\<lambda>b. sum_list (map (moved_count ?rs b) ?cs)) ?bs)
      + sum_list (map (lost_count ?rs) ?bs) + sum_list (map (new_count ?rs) ?cs)"
    by (simp only: sum_list_add_distrib)
  also have "\<dots> = sum_list (map (row_flows ?bs ?cs) ?rs)"
    by (rule flow_counts_total [OF base_segments_distinct curr_segments_distinct])
  also have "\<dots> = real (length ?rs)"
    by (rule row_flows_covered [OF assms(1)]) (auto simp: base_segments_set curr_segments_set)
  finally have total: "flow_total M = real (length ?rs)" .
  have "last (index M) = ''Total In''" "last (mcolumns M) = ''Total Out''"
    by (simp_all add: idx cols)
  moreover have "\<forall>r \<in> set (butlast (index M)).
      cell M r ''Total Out'' = sum_list (map (cell M r) (butlast (mcolumns M)))"
    unfolding bi bc using out by blast
  moreover have "\<forall>c \<in> set (mcolumns M).
      cell M ''Total In'' c = sum_list (map (\<lambda>r. cell M r c) (butlast (index M)))"
    unfolding bi cols using inn by blast
  ultimately show ?thesis using gen total by blast
qed

theorem movement_matrix_count_total_witness:
  "map_sum id flow_total (generate_movement_matrix example_snapshot ''count'')
     = Inr (real (length (rows example_snapshot)))
   \<and> length (rows example_snapshot) = 3"
proof -
  have h1: "\<forall>r \<in> set (rows example_snapshot). base_segment r \<noteq> None \<or> current_segment r \<noteq> None"
    by (simp add: example_snapshot_def)
  have h2: "set reserved_labels \<inter> set (all_segments example_snapshot) = {}"
    by (simp add: all_segments_example reserved_labels_def)
  from movement_matrix_count_total [OF h1 h2] obtain M where
    "generate_movement_matrix example_snapshot ''count'' = Inr M"
    "flow_total M = real (length (rows example_snapshot))"
    by blast
  then show ?thesis by (simp add: example_snapshot_def)
qed

text \<open>
  With a row that has no segment in either period, the flow cells of the count matrix
  add up to one less than the number of rows.
\<close>

theorem movement_matrix_count_counterexample:
  "map_sum id flow_total (generate_movement_matrix null_segment_snapshot ''count'') = Inr 1
   \<and> length (rows null_segment_snapshot) = 2"
  by code_simp

section \<open>Cohort analysis (src/analysis/cohort.py)\<close>

record cohort =
  Base_Segment :: string
  Cohort_Size :: nat
  Cohort_Retained :: nat
  Moved_Up :: nat
  Moved_Down :: nat
  Churned :: nat
  Retention_Rate :: real
  Churn_Rate :: real

text \<open>
  The loop over the \<open>Moved Internal\<close> rows of a cohort: a row with a current segment
  counts as moved up when its ordinal is below the base ordinal, else as moved down.
\<close>

fun count_moves :: "int \<Rightarrow> snapshot_row list \<Rightarrow> nat \<times> nat \<Rightarrow> error + nat \<times> nat" where
  "count_moves base_num [] (up, down) = Inr (up, down)"
| "count_moves base_num (row # rest) (up, down) =
     (case current_segment row of
        None \<Rightarrow> count_moves base_num rest (up, down)
      | Some curr_seg \<Rightarrow>
          then_do (seg_num curr_seg) (\<lambda>curr_num.
            if curr_num < base_num then count_moves base_num rest (up + 1, down)
            else count_moves base_num rest (up, down + 1)))"

text \<open>The body of the loop over the base segments.\<close>

definition cohort_for :: "snapshot \<Rightarrow> string \<Rightarrow> error + cohort" where
  "cohort_for snap base_seg =
     (let cohort_data = filter (\<lambda>r. base_segment r = Some base_seg) (rows snap);
          size = length cohort_data;
          retained = length (filter (\<lambda>r. status r = ''Retained'') cohort_data);
          churned = length (filter (\<lambda>r. status r = ''Lost (System)'') cohort_data)
      in then_do (seg_num base_seg) (\<lambda>base_num.
         then_do (count_moves base_num
                    (filter (\<lambda>r. status r = ''Moved Internal'') cohort_data) (0, 0))
           (\<lambda>(up, down).
             Inr \<lparr>Base_Segment = base_seg, Cohort_Size = size, Cohort_Retained = retained,
                  Moved_Up = up, Moved_Down = down, Churned = churned,
                  Retention_Rate = (if size > 0 then real retained / real size * 100 else 0),
                  Churn_Rate = (if size > 0 then real churned / real size * 100 else 0)\<rparr>)))"

text \<open>
  With no base segment the frame built from the empty list of cohorts has no columns,
  and the report of the average of column \<open>Retention Rate\<close> raises \<open>KeyError\<close>.
\<close>

definition identify_segment_cohorts :: "snapshot \<Rightarrow> error + cohort list" where
  "identify_segment_cohorts snap =
     then_do (map_err (cohort_for snap) (base_segments snap)) (\<lambda>cohorts.
       if cohorts = [] then Inl (KeyError [''Retention Rate''])
       else Inr cohorts)"

section \<open>Risk analysis (src/analysis/risk.py)\<close>

text \<open>\<open>col.startswith(p)\<close> and \<open>sub in col\<close> on strings.\<close>

definition startswith :: "string \<Rightarrow> string \<Rightarrow> bool" where
  "startswith col p = (take (length p) col = p)"

fun contains :: "string \<Rightarrow> string \<Rightarrow> bool" where
  "contains sub [] = (sub = [])"
| "contains sub (c # cs) = (take (length sub) (c # cs) = sub \<or> contains sub cs)"

definition base_rev_cols :: "snapshot \<Rightarrow> string list" where
  "base_rev_cols snap =
     filter (\<lambda>col. startswith col ''base_'' \<and> contains ''_rev_wf'' col) (columns snap)"

definition curr_rev_cols :: "snapshot \<Rightarrow> string list" where
  "curr_rev_cols snap =
     filter (\<lambda>col. startswith col ''current_'' \<and> contains ''_rev_wf'' col) (columns snap)"

text \<open>
  The reasons attached to a score. The source renders them as text (the decline with its
  percentage to one decimal); the model keeps the reason and the percentage.
\<close>

datatype risk_factor =
  Revenue_Declined real | Low_Revenue | Below_Average_Revenue
  | Bottom_Tier | Lower_Tier | Moved_Lower

record risk_record =
  risk_entity :: string
  risk_current_segment :: "string option"
  current_revenue :: real
  risk_score :: int
  risk_level :: string
  risk_factors :: "risk_factor list"

text \<open>Factor 1: revenue decline (0-40 points).\<close>

definition revenue_decline_points :: "real \<Rightarrow> real \<Rightarrow> int \<times> risk_factor list" where
  "revenue_decline_points base_rev curr_rev =
     (if base_rev > 0
      then (let rev_change_pct = ((curr_rev - base_rev) / base_rev) * 100
            in if rev_change_pct < - 20 then (40, [Revenue_Declined rev_change_pct])
               else if rev_change_pct < - 10 then (25, [Revenue_Declined rev_change_pct])
               else if rev_change_pct < 0 then (10, [Revenue_Declined rev_change_pct])
               else (0, []))
      else (0, []))"

text \<open>Factor 2: low revenue (0-20 points).\<close>

definition low_revenue_points :: "real \<Rightarrow> int \<times> risk_factor list" where
  "low_revenue_points curr_rev =
     (if curr_rev < 5000 then (20, [Low_Revenue])
      else if curr_rev < 10000 then (10, [Below_Average_Revenue])
      else (0, []))"

text \<open>Factor 3: in declining segments (0-20 points).\<close>

definition tier_points :: "string option \<Rightarrow> error + int \<times> risk_factor list" where
  "tier_points curr_seg =
     (case curr_seg of
        None \<Rightarrow> Inr (0, [])
      | Some code \<Rightarrow>
          then_do (seg_num code) (\<lambda>ordinal.
            Inr (if ordinal \<ge> 16 then (20, [Bottom_Tier])
                 else if ordinal \<ge> 11 then (10, [Lower_Tier])
                 else (0, []))))"

text \<open>Factor 4: recently moved segments (0-20 points).\<close>

definition move_points :: "snapshot_row \<Rightarrow> error + int \<times> risk_factor list" where
  "move_points entity_row =
     (if status entity_row = ''Moved Internal''
      then (case (base_segment entity_row, current_segment entity_row) of
              (Some base_seg, Some curr_seg) \<Rightarrow>
                then_do (seg_num base_seg) (\<lambda>base_num.
                then_do (seg_num curr_seg) (\<lambda>curr_num.
                  Inr (if curr_num > base_num then (20, [Moved_Lower]) else (0, []))))
            | _ \<Rightarrow> Inr (0, []))
      else Inr (0, []))"

text \<open>The body of the loop over the entities of the current period.\<close>

definition score_entity :: "string list \<Rightarrow> string list \<Rightarrow> snapshot_row \<Rightarrow> error + risk_record" where
  "score_entity base_cols curr_cols entity_row =
     (let base_rev = sum_list (map (metric_value entity_row) base_cols);
          curr_rev = sum_list (map (metric_value entity_row) curr_cols);
          (p1, f1) = revenue_decline_points base_rev curr_rev;
          (p2, f2) = low_revenue_points curr_rev
      in then_do (tier_points (current_segment entity_row)) (\<lambda>(p3, f3).
         then_do (move_points entity_row) (\<lambda>(p4, f4).
           let score = 0 + p1 + p2 + p3 + p4;
               level = (if score \<ge> 60 then ''High''
                        else if score \<ge> 30 then ''Medium'' else ''Low'')
           in Inr \<lparr>risk_entity = entity entity_row,
                   risk_current_segment = current_segment entity_row,
                   current_revenue = curr_rev,
                   risk_score = score,
                   risk_level = level,
                   risk_factors = f1 @ f2 @ f3 @ f4\<rparr>)))"

text \<open>
  \<open>frame.sort_values(column, ascending=False)\<close> is the library's sort with its default
  algorithm (quicksort), which the library documents as not stable. It is a parameter of
  the model; what the library promises of it is that the result holds the same rows in
  descending order of the key.
\<close>

definition sorts_descending :: "('a \<Rightarrow> int) \<Rightarrow> ('a list \<Rightarrow> 'a list) \<Rightarrow> bool" where
  "sorts_descending key sort_values =
     (\<forall>xs. mset (sort_values xs) = mset xs \<and> sorted (rev (map key (sort_values xs))))"

text \<open>
  With no entity in the current period the frame built from the empty list of scores has
  no columns, and sorting it by \<open>risk_score\<close> raises \<open>KeyError\<close>.
\<close>

definition calculate_churn_risk_score ::
  "(risk_record list \<Rightarrow> risk_record list) \<Rightarrow> snapshot \<Rightarrow> error + risk_record list" where
  "calculate_churn_risk_score sort_values snap =
     (let current_entities = filter (\<lambda>r. current_segment r \<noteq> None) (rows snap)
      in then_do (map_err (score_entity (base_rev_cols snap) (curr_rev_cols snap))
                    current_entities) (\<lambda>risk_scores.
           if risk_scores = [] then Inl (KeyError [''risk_score''])
           else Inr (sort_values risk_scores)))"






subsection \<open>Properties of the sorts\<close>



subsection \<open>Empty snapshots\<close>

text \<open>
  Claim C4. Applied to a snapshot with zero rows, cohort identification and entity
  churn-risk scoring do not return an empty table: each raises \<open>KeyError\<close>.
\<close>

theorem empty_snapshot_raises:
  "identify_segment_cohorts \<lparr>metric_columns = cols, rows = []\<rparr> = Inl (KeyError [''Retention Rate''])
   \<and> calculate_churn_risk_score sort_values \<lparr>metric_columns = cols, rows = []\<rparr>
       = Inl (KeyError [''risk_score''])"
  by (simp add: identify_segment_cohorts_def calculate_churn_risk_score_def base_segments_def
      List.map_filter_def)

subsection \<open>Properties of the entity risk score\<close>











lemma sorts_descending_sorted: "sorts_descending key srt \<Longrightarrow> sorted (rev (map key (srt xs)))"
  by (simp add: sorts_descending_def)






subsection \<open>Parsing segment ordinals\<close>






















section \<open>Snapshot construction (src/data/processor.py)\<close>

subsection \<open>Configuration (src/config/settings.py)\<close>

definition SEGMENT_COLS_entity :: string where "SEGMENT_COLS_entity = ''glbl_enti_nbr''"
definition SEGMENT_COLS_month :: string where "SEGMENT_COLS_month = ''segmentation_mnth''"
definition SEGMENT_COLS_segment :: string where "SEGMENT_COLS_segment = ''dmnt_seg_cd''"
definition METRICS_COLS_entity :: string where "METRICS_COLS_entity = ''glbl_enti_nbr''"
definition METRICS_COLS_month :: string where "METRICS_COLS_month = ''shp_dt_yyyymm''"

text \<open>The two settings read from the environment.\<close>

record settings =
  TTM_MONTHS :: int
  ENABLE_CACHING :: bool

subsection \<open>Input tables\<close>

text \<open>
  An assignment table is the list of its column names and its rows. A row gives the
  values under the entity, month and segment columns; a column the table does not have is
  never read, since selecting it raises \<open>KeyError\<close> first. A segment code can be null.
\<close>

record seg_row =
  row_entity :: string
  row_month :: int
  row_segment :: "string option"

record seg_table =
  seg_columns :: "string list"
  seg_rows :: "seg_row list"

text \<open>The metrics table: one row per entity and month, a number under each metric column.\<close>

record metrics_row =
  met_entity :: string
  met_month :: int
  met_value :: "string \<Rightarrow> real"

record metrics_table =
  met_columns :: "string list"
  met_rows :: "metrics_row list"

text \<open>
  The aggregated metrics: the metric column names and, per entity, the sums in the order
  of those columns.
\<close>

record agg_table =
  agg_columns :: "string list"
  agg_rows :: "(string \<times> real list) list"

subsection \<open>The cache (src/utils/caching.py)\<close>

text \<open>
  The pickled files under the two cache directories, by identifier. A file that cannot be
  read counts as absent, and a write is taken to succeed.
\<close>

record cache =
  snapshots_dir :: "string \<Rightarrow> snapshot option"
  metrics_dir :: "string \<Rightarrow> agg_table option"

definition load_snapshot_from_cache :: "settings \<Rightarrow> cache \<Rightarrow> string \<Rightarrow> snapshot option" where
  "load_snapshot_from_cache cfg c identifier =
     (if \<not> ENABLE_CACHING cfg then None else snapshots_dir c identifier)"

definition save_snapshot_to_cache :: "settings \<Rightarrow> cache \<Rightarrow> string \<Rightarrow> snapshot \<Rightarrow> cache" where
  "save_snapshot_to_cache cfg c identifier data =
     (if \<not> ENABLE_CACHING cfg then c
      else c\<lparr>snapshots_dir := (snapshots_dir c)(identifier \<mapsto> data)\<rparr>)"

definition load_metrics_from_cache :: "settings \<Rightarrow> cache \<Rightarrow> string \<Rightarrow> agg_table option" where
  "load_metrics_from_cache cfg c identifier =
     (if \<not> ENABLE_CACHING cfg then None else metrics_dir c identifier)"

definition save_metrics_to_cache :: "settings \<Rightarrow> cache \<Rightarrow> string \<Rightarrow> agg_table \<Rightarrow> cache" where
  "save_metrics_to_cache cfg c identifier data =
     (if \<not> ENABLE_CACHING cfg then c
      else c\<lparr>metrics_dir := (metrics_dir c)(identifier \<mapsto> data)\<rparr>)"

text \<open>The decimal rendering of an integer inside an f-string.\<close>

function str_digits :: "int \<Rightarrow> string" where
  "str_digits n =
     (if n < 10 then [''0123456789'' ! nat n]
      else str_digits (n div 10) @ [''0123456789'' ! nat (n mod 10)])"
  by pat_completeness auto
termination
  by (relation "measure nat") auto

declare str_digits.simps [simp del]

definition str_int :: "int \<Rightarrow> string" where
  "str_int i = (if i < 0 then CHR ''-'' # str_digits (- i) else str_digits i)"

subsection \<open>Trailing-window aggregation\<close>

text \<open>
  \<open>calculate_ttm_metrics\<close>: a cached result is returned as it is; otherwise the rows of
  the window are summed per entity (groups in ascending order of the entity) and the
  result is stored. Reporting the first and last month of an empty window raises
  \<open>ValueError\<close>.
\<close>

definition calculate_ttm_metrics ::
  "settings \<Rightarrow> cache \<Rightarrow> metrics_table \<Rightarrow> int \<Rightarrow> (error + agg_table) \<times> cache" where
  "calculate_ttm_metrics cfg c metrics_glbl month =
     (let cache_id = ''ttm_'' @ str_int month
      in (case load_metrics_from_cache cfg c cache_id of
            Some cached_data \<Rightarrow> (Inr cached_data, c)
          | None \<Rightarrow>
             (let ttm_months = get_ttm_months month (TTM_MONTHS cfg)
              in if ttm_months = [] then (Inl ValueError, c)
                 else if METRICS_COLS_month \<notin> set (met_columns metrics_glbl)
                 then (Inl (KeyError [METRICS_COLS_month]), c)
                 else
                   (let metrics_ttm = filter (\<lambda>r. met_month r \<in> set ttm_months)
                                        (met_rows metrics_glbl);
                        metric_cols = filter (\<lambda>col. col \<notin> set [METRICS_COLS_entity,
                                                                  METRICS_COLS_month])
                                        (met_columns metrics_glbl)
                    in if METRICS_COLS_entity \<notin> set (met_columns metrics_glbl)
                       then (Inl (KeyError [METRICS_COLS_entity]), c)
                       else
                         (let ttm_metrics =
                                \<lparr>agg_columns = metric_cols,
                                 agg_rows =
                                   map (\<lambda>e. (e, map (\<lambda>col. sum_list (map (\<lambda>r. met_value r col)
                                                 (filter (\<lambda>r. met_entity r = e) metrics_ttm)))
                                               metric_cols))
                                     (sort (remdups (map met_entity metrics_ttm)))\<rparr>
                          in (Inr ttm_metrics,
                              save_metrics_to_cache cfg c cache_id ttm_metrics))))))"

subsection \<open>Status classification\<close>

text \<open>
  \<open>classify_status_vectorized\<close> for one row: the status starts as the empty string and
  the four masked assignments follow in the order of the source. Comparing a null code
  with \<open>==\<close> gives false.
\<close>

definition classify_status :: "string option \<Rightarrow> string option \<Rightarrow> string" where
  "classify_status base_code curr_code =
     (let base_na = (base_code = None);
          curr_na = (curr_code = None);
          same_seg = (base_code \<noteq> None \<and> curr_code \<noteq> None \<and> base_code = curr_code);
          s0 = '''';
          s1 = (if base_na \<and> \<not> curr_na then ''New (System)'' else s0);
          s2 = (if \<not> base_na \<and> curr_na then ''Lost (System)'' else s1);
          s3 = (if same_seg \<and> \<not> base_na \<and> \<not> curr_na then ''Retained'' else s2);
          s4 = (if \<not> same_seg \<and> \<not> base_na \<and> \<not> curr_na then ''Moved Internal'' else s3)
      in s4)"

text \<open>The frame after the merge of the two assignments: entity, base code, current code.\<close>

type_synonym merged_row = "string \<times> string option \<times> string option"

definition classify_status_vectorized :: "merged_row list \<Rightarrow> string list" where
  "classify_status_vectorized snapshot_rows = map (\<lambda>(e, b, c). classify_status b c) snapshot_rows"

subsection \<open>Merges\<close>

text \<open>
  \<open>base.merge(curr, on='entity', how='outer')\<close>: the keys of both frames in ascending
  order; for a key, every pairing of its rows on the left with its rows on the right, or
  the rows of the one side with nulls for the other.
\<close>

definition merge_outer ::
  "(string \<times> string option) list \<Rightarrow> (string \<times> string option) list \<Rightarrow> merged_row list" where
  "merge_outer base_frame curr_frame =
     concat (map (\<lambda>k.
        let ls = filter (\<lambda>l. fst l = k) base_frame;
            rs = filter (\<lambda>r. fst r = k) curr_frame
        in if rs = [] then map (\<lambda>l. (k, snd l, None)) ls
           else if ls = [] then map (\<lambda>r. (k, None, snd r)) rs
           else concat (map (\<lambda>l. map (\<lambda>r. (k, snd l, snd r)) rs) ls))
       (sort (remdups (map fst base_frame @ map fst curr_frame))))"

text \<open>
  \<open>frame.merge(metrics, on='entity', how='left')\<close>: every row of the left frame in
  order, once per matching row of the aggregate, or once with nulls when none matches.
\<close>

definition merge_left :: "('a \<Rightarrow> string) \<Rightarrow> 'a list \<Rightarrow> agg_table \<Rightarrow> ('a \<times> real list option) list" where
  "merge_left key frame metrics =
     concat (map (\<lambda>row.
        case filter (\<lambda>a. fst a = key row) (agg_rows metrics) of
          [] \<Rightarrow> [(row, None)]
        | ms \<Rightarrow> map (\<lambda>a. (row, Some (snd a))) ms) frame)"

text \<open>The cells of a row under the given columns; a null is filled with 0.\<close>

definition filled_cells :: "string list \<Rightarrow> real list option \<Rightarrow> (string \<times> real) list" where
  "filled_cells cols vals = (case vals of None \<Rightarrow> [] | Some vs \<Rightarrow> zip cols vs)"

subsection \<open>create_snapshot\<close>

text \<open>\<open>table[SEGMENT_COLS['month']].iloc[0]\<close>\<close>

definition first_month :: "seg_table \<Rightarrow> error + int" where
  "first_month t =
     (if SEGMENT_COLS_month \<notin> set (seg_columns t) then Inl (KeyError [SEGMENT_COLS_month])
      else case seg_rows t of [] \<Rightarrow> Inl IndexError | r # _ \<Rightarrow> Inr (row_month r))"

text \<open>\<open>table[[SEGMENT_COLS['entity'], SEGMENT_COLS['segment']]]\<close>\<close>

definition entity_segment :: "seg_table \<Rightarrow> error + (string \<times> string option) list" where
  "entity_segment t =
     (case filter (\<lambda>col. col \<notin> set (seg_columns t)) [SEGMENT_COLS_entity, SEGMENT_COLS_segment] of
        [] \<Rightarrow> Inr (map (\<lambda>r. (row_entity r, row_segment r)) (seg_rows t))
      | missing \<Rightarrow> Inl (KeyError missing))"

text \<open>
  A row of the finished frame, from its row after the three merges: the segment codes and
  the status, and the metric cells with nulls filled with 0.
\<close>

definition filled_row ::
  "string list \<Rightarrow> string list \<Rightarrow>
     ((merged_row \<times> string) \<times> real list option) \<times> real list option \<Rightarrow> snapshot_row" where
  "filled_row base_cols curr_cols x =
     (case x of ((((e, b, cu), s), bv), cv) \<Rightarrow>
        \<lparr>entity = e, base_segment = b, current_segment = cu, status = s,
         metric_value = cells_of (filled_cells base_cols bv @ filled_cells curr_cols cv)\<rparr>)"

text \<open>
  The columns of the current aggregate are renamed with the metric names of the base
  aggregate: a column the base aggregate does not have keeps its name.
\<close>

definition create_snapshot ::
  "settings \<Rightarrow> cache \<Rightarrow> seg_table \<Rightarrow> seg_table \<Rightarrow> metrics_table \<Rightarrow> (error + snapshot) \<times> cache" where
  "create_snapshot cfg c0 base_seg curr_seg metrics_glbl =
     (case first_month base_seg of Inl e \<Rightarrow> (Inl e, c0) | Inr base_month \<Rightarrow>
      case first_month curr_seg of Inl e \<Rightarrow> (Inl e, c0) | Inr current_month \<Rightarrow>
      let cache_id = ''snapshot_'' @ str_int base_month @ ''_'' @ str_int current_month
      in case load_snapshot_from_cache cfg c0 cache_id of
           Some cached_data \<Rightarrow> (Inr cached_data, c0)
         | None \<Rightarrow>
      (case entity_segment base_seg of Inl e \<Rightarrow> (Inl e, c0) | Inr base_frame \<Rightarrow>
       case entity_segment curr_seg of Inl e \<Rightarrow> (Inl e, c0) | Inr curr_frame \<Rightarrow>
       let merged = merge_outer base_frame curr_frame;
           statuses = classify_status_vectorized merged
       in case calculate_ttm_metrics cfg c0 metrics_glbl base_month of
            (Inl e, c1) \<Rightarrow> (Inl e, c1)
          | (Inr base_metrics, c1) \<Rightarrow>
         (case calculate_ttm_metrics cfg c1 metrics_glbl current_month of
            (Inl e, c2) \<Rightarrow> (Inl e, c2)
          | (Inr curr_metrics, c2) \<Rightarrow>
         (let metric_cols = agg_columns base_metrics;
              base_cols = map (\<lambda>col. ''base_'' @ col) metric_cols;
              curr_cols = map (\<lambda>col. if col \<in> set metric_cols then ''current_'' @ col else col)
                            (agg_columns curr_metrics);
              with_base = merge_left (\<lambda>(m, s). fst m) (zip merged statuses) base_metrics;
              with_curr = merge_left (\<lambda>((m, s), b). fst m) with_base curr_metrics;
              snapshot =
                \<lparr>metric_columns = base_cols @ curr_cols,
                 rows = map (filled_row base_cols curr_cols) with_curr\<rparr>
          in (Inr snapshot, save_snapshot_to_cache cfg c2 cache_id snapshot)))))"

text \<open>\<open>validate_segmentation_data\<close> (src/data/validator.py): only missing columns are rejected.\<close>

definition validate_segmentation_data :: "seg_table \<Rightarrow> string list + bool" where
  "validate_segmentation_data df =
     (case filter (\<lambda>col. col \<notin> set (seg_columns df))
             [SEGMENT_COLS_entity, SEGMENT_COLS_month, SEGMENT_COLS_segment] of
        [] \<Rightarrow> Inr True
      | missing_cols \<Rightarrow> Inl missing_cols)"

text \<open>Example inputs: a well-formed assignment table, an empty cache, a metrics table.\<close>

definition seg_table_of :: "int \<Rightarrow> (string \<times> string option) list \<Rightarrow> seg_table" where
  "seg_table_of month assignments =
     \<lparr>seg_columns = [SEGMENT_COLS_entity, SEGMENT_COLS_month, SEGMENT_COLS_segment],
      seg_rows = map (\<lambda>(e, s). \<lparr>row_entity = e, row_month = month, row_segment = s\<rparr>) assignments\<rparr>"

definition empty_cache :: cache where
  "empty_cache = \<lparr>snapshots_dir = (\<lambda>k. None), metrics_dir = (\<lambda>k. None)\<rparr>"

definition example_metrics :: metrics_table where
  "example_metrics = \<lparr>met_columns = [''glbl_enti_nbr'', ''shp_dt_yyyymm'', ''p1_rev_wf''],
      met_rows = [\<lparr>met_entity = ''E1'', met_month = 202406, met_value = cells_of [(''p1_rev_wf'', 10)]\<rparr>,
         \<lparr>met_entity = ''E1'', met_month = 202405, met_value = cells_of [(''p1_rev_wf'', 5)]\<rparr>,
         \<lparr>met_entity = ''E1'', met_month = 202411, met_value = cells_of [(''p1_rev_wf'', 7)]\<rparr>,
         \<lparr>met_entity = ''E3'', met_month = 202411, met_value = cells_of [(''p1_rev_wf'', 3)]\<rparr>]\<rparr>"

subsection \<open>Properties of snapshot construction\<close>

lemma classify_status_table:
  "classify_status None (Some c) = ''New (System)''"
  "classify_status (Some b) None = ''Lost (System)''"
  "classify_status (Some b) (Some b) = ''Retained''"
  "b \<noteq> c \<Longrightarrow> classify_status (Some b) (Some c) = ''Moved Internal''"
  "classify_status None None = ''''"
  by (simp_all add: classify_status_def)


lemma filled_row_simps [simp]:
  "entity (filled_row bc cc ((((e, b, cu), s), bv), cv)) = e"
  "base_segment (filled_row bc cc ((((e, b, cu), s), bv), cv)) = b"
  "current_segment (filled_row bc cc ((((e, b, cu), s), bv), cv)) = cu"
  "status (filled_row bc cc ((((e, b, cu), s), bv), cv)) = s"
  by (simp_all add: filled_row_def)





text \<open>The example of the specification as input tables, and the same with a null code.\<close>

definition example_settings :: settings where
  "example_settings = \<lparr>TTM_MONTHS = 12, ENABLE_CACHING = True\<rparr>"


definition example_current :: seg_table where
  "example_current = seg_table_of 202411 [(''E1'', Some ''SEG01''), (''E3'', Some ''SEG03'')]"





lemma example_no_cache: "\<forall>k. load_snapshot_from_cache example_settings empty_cache k = None"
  by (simp add: load_snapshot_from_cache_def empty_cache_def)




text \<open>
  An assignment table without its segment column, and a cache that already holds the
  snapshot of the example's pair of months.
\<close>

definition no_segment_base :: seg_table where
  "no_segment_base =
     \<lparr>seg_columns = [SEGMENT_COLS_entity, SEGMENT_COLS_month],
      seg_rows = [\<lparr>row_entity = ''E1'', row_month = 202406, row_segment = None\<rparr>]\<rparr>"

definition warm_cache :: cache where
  "warm_cache =
     \<lparr>snapshots_dir = (\<lambda>k. if k = ''snapshot_202406_202411'' then Some example_snapshot else None),
      metrics_dir = (\<lambda>k. None)\<rparr>"

lemma first_month_missing:
  "SEGMENT_COLS_month \<notin> set (seg_columns t) \<Longrightarrow> first_month t = Inl (KeyError [SEGMENT_COLS_month])"
  by (simp add: first_month_def)

lemma first_month_empty:
  "SEGMENT_COLS_month \<in> set (seg_columns t) \<Longrightarrow> seg_rows t = [] \<Longrightarrow> first_month t = Inl IndexError"
  by (simp add: first_month_def)

lemma entity_segment_missing:
  "filter (\<lambda>col. col \<notin> set (seg_columns t)) [SEGMENT_COLS_entity, SEGMENT_COLS_segment] = missing
     \<Longrightarrow> missing \<noteq> [] \<Longrightarrow> entity_segment t = Inl (KeyError missing)"
  by (cases missing) (simp_all add: entity_segment_def)

text \<open>
  Claim C7 (amended). \<open>create_snapshot\<close> raises \<open>KeyError\<close> naming the month column
  when either assignment table lacks it, and \<open>IndexError\<close> when either table has the
  month column and no rows (the base table is read first). With both months read, a cached
  snapshot for that pair of months is returned without looking at the entity and segment
  columns; without one, \<open>KeyError\<close> naming the missing entity and segment columns is
  raised, for the base table first. \<open>validate_segmentation_data\<close> rejects a table
  exactly when a required column is missing, naming the missing columns, and accepts an
  empty table.
\<close>

theorem create_snapshot_failures:
  "(SEGMENT_COLS_month \<notin> set (seg_columns base_seg) \<longrightarrow>
      fst (create_snapshot cfg store base_seg curr_seg metrics_glbl)
        = Inl (KeyError [SEGMENT_COLS_month]))
   \<and> (SEGMENT_COLS_month \<in> set (seg_columns base_seg) \<longrightarrow> seg_rows base_seg = [] \<longrightarrow>
      fst (create_snapshot cfg store base_seg curr_seg metrics_glbl) = Inl IndexError)
   \<and> (first_month base_seg = Inr bm \<longrightarrow> SEGMENT_COLS_month \<notin> set (seg_columns curr_seg) \<longrightarrow>
      fst (create_snapshot cfg store base_seg curr_seg metrics_glbl)
        = Inl (KeyError [SEGMENT_COLS_month]))
   \<and> (first_month base_seg = Inr bm \<longrightarrow> SEGMENT_COLS_month \<in> set (seg_columns curr_seg) \<longrightarrow>
      seg_rows curr_seg = [] \<longrightarrow>
      fst (create_snapshot cfg store base_seg curr_seg metrics_glbl) = Inl IndexError)
   \<and> (first_month base_seg = Inr bm \<longrightarrow> first_month curr_seg = Inr cm \<longrightarrow>
      load_snapshot_from_cache cfg store (''snapshot_'' @ str_int bm @ ''_'' @ str_int cm)
        = Some cached \<longrightarrow>
      fst (create_snapshot cfg store base_seg curr_seg metrics_glbl) = Inr cached)
   \<and> (first_month base_seg = Inr bm \<longrightarrow> first_month curr_seg = Inr cm \<longrightarrow>
      load_snapshot_from_cache cfg store (''snapshot_'' @ str_int bm @ ''_'' @ str_int cm) = None \<longrightarrow>
      filter (\<lambda>col. col \<notin> set (seg_columns base_seg)) [SEGMENT_COLS_entity, SEGMENT_COLS_segment]
        = missing \<longrightarrow> missing \<noteq> [] \<longrightarrow>
      fst (create_snapshot cfg store base_seg curr_seg metrics_glbl) = Inl (KeyError missing))
   \<and> (first_month base_seg = Inr bm \<longrightarrow> first_month curr_seg = Inr cm \<longrightarrow>
      load_snapshot_from_cache cfg store (''snapshot_'' @ str_int bm @ ''_'' @ str_int cm) = None \<longrightarrow>
      entity_segment base_seg = Inr bf \<longrightarrow>
      filter (\<lambda>col. col \<notin> set (seg_columns curr_seg)) [SEGMENT_COLS_entity, SEGMENT_COLS_segment]
        = missing \<longrightarrow> missing \<noteq> [] \<longrightarrow>
      fst (create_snapshot cfg store base_seg curr_seg metrics_glbl) = Inl (KeyError missing))
   \<and> (filter (\<lambda>col. col \<notin> set (seg_columns df))
         [SEGMENT_COLS_entity, SEGMENT_COLS_month, SEGMENT_COLS_segment] = missing \<longrightarrow>
      validate_segmentation_data df = (if missing = [] then Inr True else Inl missing))"
proof (intro conjI impI)
  assume "SEGMENT_COLS_month \<notin> set (seg_columns base_seg)"
  then show "fst (create_snapshot cfg store base_seg curr_seg metrics_glbl)
        = Inl (KeyError [SEGMENT_COLS_month])"
    by (simp add: create_snapshot_def first_month_missing)
next
  assume "SEGMENT_COLS_month \<in> set (seg_columns base_seg)" "seg_rows base_seg = []"
  then show "fst (create_snapshot cfg store base_seg curr_seg metrics_glbl) = Inl IndexError"
    by (simp add: create_snapshot_def first_month_empty)
next
  assume "first_month base_seg = Inr bm" "SEGMENT_COLS_month \<notin> set (seg_columns curr_seg)"
  then show "fst (create_snapshot cfg store base_seg curr_seg metrics_glbl)
        = Inl (KeyError [SEGMENT_COLS_month])"
    by (simp add: create_snapshot_def first_month_missing)
next
  assume "first_month base_seg = Inr bm" "SEGMENT_COLS_month \<in> set (seg_columns curr_seg)"
    "seg_rows curr_seg = []"
  then show "fst (create_snapshot cfg store base_seg curr_seg metrics_glbl) = Inl IndexError"
    by (simp add: create_snapshot_def first_month_empty)
next
  assume "first_month base_seg = Inr bm" "first_month curr_seg = Inr cm"
    "load_snapshot_from_cache cfg store (''snapshot_'' @ str_int bm @ ''_'' @ str_int cm) = Some cached"
  then show "fst (create_snapshot cfg store base_seg curr_seg metrics_glbl) = Inr cached"
    by (simp add: create_snapshot_def Let_def)
next
  assume "first_month base_seg = Inr bm" "first_month curr_seg = Inr cm"
    "load_snapshot_from_cache cfg store (''snapshot_'' @ str_int bm @ ''_'' @ str_int cm) = None"
    and m: "filter (\<lambda>col. col \<notin> set (seg_columns base_seg)) [SEGMENT_COLS_entity, SEGMENT_COLS_segment]
        = missing" "missing \<noteq> []"
  then show "fst (create_snapshot cfg store base_seg curr_seg metrics_glbl) = Inl (KeyError missing)"
    by (simp add: create_snapshot_def Let_def entity_segment_missing [OF m])
next
  assume "first_month base_seg = Inr bm" "first_month curr_seg = Inr cm"
    "load_snapshot_from_cache cfg store (''snapshot_'' @ str_int bm @ ''_'' @ str_int cm) = None"
    "entity_segment base_seg = Inr bf"
    and m: "filter (\<lambda>col. col \<notin> set (seg_columns curr_seg)) [SEGMENT_COLS_entity, SEGMENT_COLS_segment]
        = missing" "missing \<noteq> []"
  then show "fst (create_snapshot cfg store base_seg curr_seg metrics_glbl) = Inl (KeyError missing)"
    by (simp add: create_snapshot_def Let_def entity_segment_missing [OF m])
next
  assume "filter (\<lambda>col. col \<notin> set (seg_columns df))
         [SEGMENT_COLS_entity, SEGMENT_COLS_month, SEGMENT_COLS_segment] = missing"
  then show "validate_segmentation_data df = (if missing = [] then Inr True else Inl missing)"
    by (cases missing) (simp_all add: validate_segmentation_data_def)
qed


theorem create_snapshot_failures_witness:
  "fst (create_snapshot example_settings empty_cache (seg_table_of 202406 []) example_current
          example_metrics) = Inl IndexError
   \<and> fst (create_snapshot example_settings empty_cache no_segment_base example_current
            example_metrics) = Inl (KeyError [SEGMENT_COLS_segment])
   \<and> validate_segmentation_data no_segment_base = Inl [SEGMENT_COLS_segment]
   \<and> validate_segmentation_data (seg_table_of 202406 []) = Inr True"
proof -
  have cols: "SEGMENT_COLS_month \<in> set (seg_columns (seg_table_of 202406 []))"
    "seg_rows (seg_table_of 202406 []) = []"
    by (simp_all add: seg_table_of_def)
  have 1: "fst (create_snapshot example_settings empty_cache (seg_table_of 202406 []) example_current
          example_metrics) = Inl IndexError"
    using create_snapshot_failures
      [where base_seg = "seg_table_of 202406 []" and cfg = example_settings and store = empty_cache
         and curr_seg = example_current and metrics_glbl = example_metrics]
      cols by blast
  have bm: "first_month no_segment_base = Inr 202406"
    by (simp add: first_month_def no_segment_base_def)
  have cm: "first_month example_current = Inr 202411"
    by (simp add: first_month_def example_current_def seg_table_of_def)
  have miss: "load_snapshot_from_cache example_settings empty_cache
      (''snapshot_'' @ str_int 202406 @ ''_'' @ str_int 202411) = None"
    by (simp add: load_snapshot_from_cache_def empty_cache_def)
  have f: "filter (\<lambda>col. col \<notin> set (seg_columns no_segment_base))
      [SEGMENT_COLS_entity, SEGMENT_COLS_segment] = [SEGMENT_COLS_segment]"
    by (simp add: no_segment_base_def SEGMENT_COLS_entity_def SEGMENT_COLS_segment_def
        SEGMENT_COLS_month_def)
  have 2: "fst (create_snapshot example_settings empty_cache no_segment_base example_current
            example_metrics) = Inl (KeyError [SEGMENT_COLS_segment])"
    using create_snapshot_failures
      [where base_seg = no_segment_base and cfg = example_settings and store = empty_cache
         and curr_seg = example_current and metrics_glbl = example_metrics
         and bm = 202406 and cm = 202411 and missing = "[SEGMENT_COLS_segment]"]
      bm cm miss f by blast
  have 3: "validate_segmentation_data no_segment_base = Inl [SEGMENT_COLS_segment]"
    by (simp add: validate_segmentation_data_def no_segment_base_def SEGMENT_COLS_entity_def
        SEGMENT_COLS_segment_def SEGMENT_COLS_month_def)
  have 4: "validate_segmentation_data (seg_table_of 202406 []) = Inr True"
    by (simp add: validate_segmentation_data_def seg_table_of_def)
  from 1 2 3 4 show ?thesis by simp
qed

text \<open>
  With the snapshot of the pair of months in the cache, a base table without its segment
  column is not rejected: the cached snapshot comes back.
\<close>

theorem create_snapshot_cache_hit_counterexample:
  "SEGMENT_COLS_segment \<notin> set (seg_columns no_segment_base)
   \<and> map_sum id (\<lambda>s. map entity (rows s))
        (fst (create_snapshot example_settings warm_cache no_segment_base example_current
                example_metrics))
       = Inr [''E1'', ''E2'', ''E3'']"
proof -
  have "SEGMENT_COLS_segment \<notin> set (seg_columns no_segment_base)"
    by (simp add: no_segment_base_def SEGMENT_COLS_entity_def SEGMENT_COLS_segment_def
        SEGMENT_COLS_month_def)
  moreover have "map_sum id (\<lambda>s. map entity (rows s))
        (fst (create_snapshot example_settings warm_cache no_segment_base example_current
                example_metrics))
       = Inr [''E1'', ''E2'', ''E3'']"
    by code_simp
  ultimately show ?thesis by simp
qed

end
